theory Spec2Isabelle
  imports Complex_Main
begin

section \<open>Subscription tiers and their limits\<close>

text \<open>
  The routes of \<open>routes/events.js\<close> are modelled as functions from a request and the
  world (the Prisma tables plus the list of calls made so far) to a response and the new
  world. What the outside decides (the clock, the answers of the Zoom API, a failing
  database call) is read from an environment record.
\<close>

datatype tier = TRIAL | STANDARD | PRO

record limits =
  maxEvents :: int
  maxAttendees :: int
  maxDuration :: int

text \<open>The table \<open>SUBSCRIPTION_LIMITS\<close>; \<open>-1\<close> stands for unlimited.\<close>

definition SUBSCRIPTION_LIMITS :: "tier \<Rightarrow> limits" where
  "SUBSCRIPTION_LIMITS t =
     (case t of
        TRIAL \<Rightarrow> \<lparr>maxEvents = 3, maxAttendees = 12, maxDuration = 60\<rparr>
      | STANDARD \<Rightarrow> \<lparr>maxEvents = 10, maxAttendees = 250, maxDuration = 240\<rparr>
      | PRO \<Rightarrow> \<lparr>maxEvents = - 1, maxAttendees = 500, maxDuration = - 1\<rparr>)"

section \<open>Rows, requests and responses\<close>

text \<open>
  Instants are JavaScript time values: whole milliseconds since the epoch. A request
  field that express-validator inspects is \<open>Absent\<close> (undefined), \<open>Malformed\<close> (it fails
  the format check: not ISO 8601, not an integer, not an e-mail) or \<open>Present\<close> with the
  value it denotes; a string that passes the ISO 8601 check is taken to denote an instant
  (\<open>new Date\<close> of it is a valid date).
\<close>

datatype 'a field = Absent | Malformed | Present 'a

record event =
  ev_id :: nat
  ev_userId :: nat
  ev_title :: string
  ev_description :: "string option"
  ev_type :: string
  ev_startTime :: int
  ev_endTime :: int
  ev_timezone :: string
  ev_maxAttendees :: int
  ev_currentAttendees :: int
  ev_dashboardTemplate :: string
  ev_settings :: string
  ev_zoomMeetingId :: "string option"
  ev_zoomMeetingUrl :: "string option"
  ev_zoomPassword :: "string option"
  ev_zoomHostKey :: "string option"

record attendee =
  at_email :: string
  at_firstName :: string
  at_lastName :: string
  at_eventId :: nat
  at_joinUrl :: "string option"

text \<open>What \<open>zoomService.createMeeting\<close> returns, as far as the routes read it.\<close>

record zoomMeeting =
  zm_id :: nat
  zm_join_url :: string
  zm_start_url :: string
  zm_password :: string

text \<open>The \<open>meetingData\<close> object sent on creation and the \<open>zoomUpdateData\<close> object
  sent on update; a key that is not set is \<open>None\<close>.\<close>

record meetingData =
  md_topic :: string
  md_start_time :: int
  md_duration :: int
  md_timezone :: string
  md_agenda :: "string option"
  md_settings :: string

record zoomUpdateData =
  zu_topic :: "string option"
  zu_agenda :: "string option"
  zu_start_time :: "int option"
  zu_duration :: "int option"

datatype store_op =
  EventCount | EventFindUnique | EventCreate | EventUpdate | EventDelete
  | AttendeeFindUnique | AttendeeCreate

datatype call =
  Store store_op
  | ZoomCreateMeeting meetingData
  | ZoomUpdateMeeting string zoomUpdateData
  | ZoomDeleteMeeting string
  | ConsoleError string

record world =
  w_events :: "event list"
  w_attendees :: "attendee list"
  w_nextId :: nat
  w_trace :: "call list"

record env =
  clock :: int
  zoom_createMeeting :: "meetingData \<Rightarrow> zoomMeeting option"
  zoom_updateMeeting :: "string \<Rightarrow> zoomUpdateData \<Rightarrow> bool"
  zoom_deleteMeeting :: "string \<Rightarrow> bool"
  store_fails :: "store_op \<Rightarrow> bool"

record user =
  usr_id :: nat
  subscriptionTier :: tier

datatype response =
  ValidationFailed
  | EventLimitExceeded int int
  | AttendeeLimitExceeded int int
  | DurationLimitExceeded int int
  | InvalidStartTime
  | InvalidEndTime
  | EventCreated event "zoomMeeting option"
  | EventNotFound
  | EventUpdated event
  | EventDeleted
  | EventFull int int
  | AlreadyRegistered
  | AttendeeRegistered attendee
  | ServerError

text \<open>
  \<open>EventLimitExceeded limit currentCount\<close>, \<open>AttendeeLimitExceeded limit requested\<close> and
  \<open>DurationLimitExceeded limit requested\<close> are the three 403 answers,
  \<open>EventFull maxAttendees current\<close> and \<open>AlreadyRegistered\<close> the two 400 answers of
  registration, \<open>ServerError\<close> the 500 of each route's outer \<open>catch\<close> (whose own
  \<open>console.error\<close> is not recorded in the trace).
\<close>

section \<open>The database and the Zoom service\<close>

definition logCall :: "call \<Rightarrow> world \<Rightarrow> world" where
  "logCall c w = w\<lparr>w_trace := w_trace w @ [c]\<rparr>"

text \<open>Every Prisma call is logged and returns \<open>None\<close> where it throws.\<close>

definition eventsOf :: "nat \<Rightarrow> world \<Rightarrow> event list" where
  "eventsOf uid w = filter (\<lambda>e. ev_userId e = uid) (w_events w)"

definition attendeesOf :: "nat \<Rightarrow> world \<Rightarrow> attendee list" where
  "attendeesOf eid w = filter (\<lambda>a. at_eventId a = eid) (w_attendees w)"

definition prisma_event_count :: "env \<Rightarrow> nat \<Rightarrow> world \<Rightarrow> int option \<times> world" where
  "prisma_event_count en uid w =
     (if store_fails en EventCount then None else Some (int (length (eventsOf uid w))),
      logCall (Store EventCount) w)"

text \<open>\<open>findUnique\<close> with \<open>where: {id, userId}\<close>: the row, if the caller owns it.\<close>

definition prisma_event_findUnique ::
  "env \<Rightarrow> nat \<Rightarrow> nat \<Rightarrow> world \<Rightarrow> event option option \<times> world" where
  "prisma_event_findUnique en eid uid w =
     (if store_fails en EventFindUnique then None
      else Some (find (\<lambda>e. ev_id e = eid \<and> ev_userId e = uid) (w_events w)),
      logCall (Store EventFindUnique) w)"

text \<open>\<open>create\<close> gives the row a fresh id and stores it.\<close>

definition prisma_event_create :: "env \<Rightarrow> event \<Rightarrow> world \<Rightarrow> event option \<times> world" where
  "prisma_event_create en e w =
     (let w1 = logCall (Store EventCreate) w;
          row = e\<lparr>ev_id := w_nextId w\<rparr>
      in if store_fails en EventCreate then (None, w1)
         else (Some row, w1\<lparr>w_events := w_events w1 @ [row], w_nextId := Suc (w_nextId w1)\<rparr>))"

text \<open>\<open>update\<close> with \<open>where: {id}\<close> throws when no row has the id.\<close>

definition prisma_event_update ::
  "env \<Rightarrow> nat \<Rightarrow> (event \<Rightarrow> event) \<Rightarrow> world \<Rightarrow> event option \<times> world" where
  "prisma_event_update en eid f w =
     (let w1 = logCall (Store EventUpdate) w
      in if store_fails en EventUpdate then (None, w1)
         else (case find (\<lambda>e. ev_id e = eid) (w_events w1) of
                 None \<Rightarrow> (None, w1)
               | Some e \<Rightarrow>
                   (Some (f e),
                    w1\<lparr>w_events := map (\<lambda>x. if ev_id x = eid then f x else x) (w_events w1)\<rparr>)))"

definition prisma_event_delete :: "env \<Rightarrow> nat \<Rightarrow> world \<Rightarrow> bool \<times> world" where
  "prisma_event_delete en eid w =
     (let w1 = logCall (Store EventDelete) w
      in if store_fails en EventDelete \<or> find (\<lambda>e. ev_id e = eid) (w_events w1) = None
         then (False, w1)
         else (True, w1\<lparr>w_events := filter (\<lambda>e. ev_id e \<noteq> eid) (w_events w1)\<rparr>))"

text \<open>The attendee table is unique on \<open>(email, eventId)\<close>, the key \<open>email_eventId\<close>.\<close>

definition prisma_attendee_findUnique ::
  "env \<Rightarrow> string \<Rightarrow> nat \<Rightarrow> world \<Rightarrow> attendee option option \<times> world" where
  "prisma_attendee_findUnique en email eid w =
     (if store_fails en AttendeeFindUnique then None
      else Some (find (\<lambda>a. at_email a = email \<and> at_eventId a = eid) (w_attendees w)),
      logCall (Store AttendeeFindUnique) w)"

definition prisma_attendee_create ::
  "env \<Rightarrow> attendee \<Rightarrow> world \<Rightarrow> attendee option \<times> world" where
  "prisma_attendee_create en a w =
     (let w1 = logCall (Store AttendeeCreate) w
      in if store_fails en AttendeeCreate
            \<or> find (\<lambda>x. at_email x = at_email a \<and> at_eventId x = at_eventId a) (w_attendees w1)
                \<noteq> None
         then (None, w1)
         else (Some a, w1\<lparr>w_attendees := w_attendees w1 @ [a]\<rparr>))"

section \<open>Helpers of the language\<close>

text \<open>
  \<open>Math.ceil((end - start) / (1000 * 60))\<close>. The quotient is taken in the reals: for
  time values of the size JavaScript dates have, the double the program computes has the
  same ceiling.
\<close>

definition durationMinutes :: "int \<Rightarrow> int \<Rightarrow> int" where
  "durationMinutes startTime endTime = \<lceil>real_of_int (endTime - startTime) / (1000 * 60)\<rceil>"

text \<open>\<open>Number.prototype.toString\<close> on a meeting id: its decimal digits (meeting ids
  are below \<open>10^21\<close>, where JavaScript turns to the exponent form).\<close>

definition digitChar :: "nat \<Rightarrow> char" where
  "digitChar d =
     (if d = 0 then CHR ''0'' else if d = 1 then CHR ''1'' else if d = 2 then CHR ''2''
      else if d = 3 then CHR ''3'' else if d = 4 then CHR ''4'' else if d = 5 then CHR ''5''
      else if d = 6 then CHR ''6'' else if d = 7 then CHR ''7'' else if d = 8 then CHR ''8''
      else CHR ''9'')"

fun toString :: "nat \<Rightarrow> string" where
  "toString n =
     (if n < 10 then [digitChar n] else toString (n div 10) @ [digitChar (n mod 10)])"

text \<open>The validator's \<open>trim()\<close> strips white space at both ends. Strings are bytes
  here and the six ASCII blanks are stripped; the other characters of JavaScript's
  \<open>\s\<close> (U+00A0 and the like) are not told apart from text, so a title made of such
  characters alone counts as a title here, while the code answers 400.\<close>

definition isSpace :: "char \<Rightarrow> bool" where
  "isSpace c = (c \<in> set [CHR '' '', CHR 0x09, CHR 0x0A, CHR 0x0B, CHR 0x0C, CHR 0x0D])"

definition trim :: "string \<Rightarrow> string" where
  "trim s = rev (dropWhile isSpace (rev (dropWhile isSpace s)))"

text \<open>\<open>a || b\<close> on a number that may be undefined: \<open>0\<close> is falsy too.\<close>

definition orDefault :: "int option \<Rightarrow> int \<Rightarrow> int" where
  "orDefault a b = (case a of None \<Rightarrow> b | Some v \<Rightarrow> if v = 0 then b else v)"

text \<open>Truthiness of a string that may be undefined.\<close>

definition truthy :: "string option \<Rightarrow> bool" where
  "truthy s = (case s of None \<Rightarrow> False | Some v \<Rightarrow> v \<noteq> [])"

declare toString.simps [simp del]

section \<open>POST /api/events: creating an event\<close>

record create_body =
  b_title :: "string option"
  b_description :: "string option"
  b_type :: "string option"
  b_startTime :: "int field"
  b_endTime :: "int field"
  b_timezone :: "string option"
  b_maxAttendees :: "int field"
  b_dashboardTemplate :: "string option"
  b_settings :: "string option"
  b_createZoomMeeting :: "bool option"

text \<open>The constants of the handler after the validators and the destructuring with
  defaults; \<open>settings\<close> is kept as its JSON text.\<close>

record create_fields =
  c_title :: string
  c_description :: "string option"
  c_type :: string
  c_startTime :: int
  c_endTime :: int
  c_timezone :: string
  c_maxAttendees :: "int option"
  c_dashboardTemplate :: string
  c_settings :: string
  c_createZoomMeeting :: bool

definition orElse :: "'a option \<Rightarrow> 'a \<Rightarrow> 'a" where
  "orElse a d = (case a of None \<Rightarrow> d | Some v \<Rightarrow> v)"

text \<open>
  The validator chain of the route (a title that is not empty once trimmed, ISO 8601
  start and end, an optional integer \<open>maxAttendees\<close> of at least 1) and the
  destructuring of \<open>req.body\<close>. \<open>None\<close> is the 400 answer \<open>Validation failed\<close>.
\<close>

definition readCreateBody :: "create_body \<Rightarrow> create_fields option" where
  "readCreateBody b =
     (case b_title b of
        None \<Rightarrow> None
      | Some t \<Rightarrow>
          (case b_startTime b of
             Present s \<Rightarrow>
               (case b_endTime b of
                  Present e \<Rightarrow>
                    (if trim t = []
                        \<or> (case b_maxAttendees b of
                              Absent \<Rightarrow> False | Malformed \<Rightarrow> True | Present n \<Rightarrow> n < 1)
                     then None
                     else Some \<lparr>c_title = trim t,
                                c_description = b_description b,
                                c_type = orElse (b_type b) ''MEETING'',
                                c_startTime = s,
                                c_endTime = e,
                                c_timezone = orElse (b_timezone b) ''UTC'',
                                c_maxAttendees =
                                  (case b_maxAttendees b of Present n \<Rightarrow> Some n | _ \<Rightarrow> None),
                                c_dashboardTemplate = orElse (b_dashboardTemplate b) ''CLASSIC'',
                                c_settings = orElse (b_settings b) ''{}'',
                                c_createZoomMeeting = orElse (b_createZoomMeeting b) True\<rparr>)
                | _ \<Rightarrow> None)
           | _ \<Rightarrow> None))"

text \<open>
  The three subscription checks, in the order of the source: the event count (read from
  the database only for a tier whose \<open>maxEvents\<close> is not \<open>-1\<close>), the attendee limit,
  the duration. The first check that fails answers 403; otherwise the handler goes on
  with \<open>attendeeLimit\<close> and \<open>duration\<close>.
\<close>

definition checkSubscriptionLimits ::
  "env \<Rightarrow> user \<Rightarrow> create_fields \<Rightarrow> world \<Rightarrow> (response + int \<times> int) \<times> world" where
  "checkSubscriptionLimits en usr c w =
     (let lim = SUBSCRIPTION_LIMITS (subscriptionTier usr);
          attendeeLimit = orDefault (c_maxAttendees c) (maxAttendees lim);
          duration = durationMinutes (c_startTime c) (c_endTime c);
          others =
            (if attendeeLimit > maxAttendees lim
             then Inl (AttendeeLimitExceeded (maxAttendees lim) attendeeLimit)
             else if maxDuration lim \<noteq> - 1 \<and> duration > maxDuration lim
             then Inl (DurationLimitExceeded (maxDuration lim) duration)
             else Inr (attendeeLimit, duration))
      in if maxEvents lim \<noteq> - 1
         then (case prisma_event_count en (usr_id usr) w of
                 (None, w1) \<Rightarrow> (Inl ServerError, w1)
               | (Some eventCount, w1) \<Rightarrow>
                   if eventCount \<ge> maxEvents lim
                   then (Inl (EventLimitExceeded (maxEvents lim) eventCount), w1)
                   else (others, w1))
         else (others, w))"

text \<open>Start in the future, end after start; \<open>clock\<close> is \<open>new Date()\<close>.\<close>

definition checkTimes :: "env \<Rightarrow> create_fields \<Rightarrow> response option" where
  "checkTimes en c =
     (if c_startTime c \<le> clock en then Some InvalidStartTime
      else if c_endTime c \<le> c_startTime c then Some InvalidEndTime
      else None)"

text \<open>The \<open>try\<close> around \<open>zoomService.createMeeting\<close>: a throw is logged and leaves
  \<open>zoomMeeting\<close> null.\<close>

definition meetingDataOf :: "create_fields \<Rightarrow> int \<Rightarrow> meetingData" where
  "meetingDataOf c duration =
     \<lparr>md_topic = c_title c, md_start_time = c_startTime c,
      md_duration = duration, md_timezone = c_timezone c,
      md_agenda = c_description c, md_settings = c_settings c\<rparr>"

definition requestZoomMeeting ::
  "env \<Rightarrow> create_fields \<Rightarrow> int \<Rightarrow> world \<Rightarrow> zoomMeeting option \<times> world" where
  "requestZoomMeeting en c duration w =
     (if c_createZoomMeeting c
      then (let meetingData = meetingDataOf c duration;
                w1 = logCall (ZoomCreateMeeting meetingData) w
            in case zoom_createMeeting en meetingData of
                 Some m \<Rightarrow> (Some m, w1)
               | None \<Rightarrow> (None, logCall (ConsoleError ''Zoom meeting creation failed:'') w1))
      else (None, w))"

text \<open>
  The row handed to \<open>prisma.event.create\<close>. The Prisma schema is not among the
  sources: the column \<open>currentAttendees\<close>, which the handler does not set, is taken to
  start at 0 (no property below depends on it), and an optional column that is not given
  is null.
\<close>

definition newEventRow ::
  "user \<Rightarrow> create_fields \<Rightarrow> int \<Rightarrow> zoomMeeting option \<Rightarrow> event" where
  "newEventRow usr c attendeeLimit zoomMeeting =
     \<lparr>ev_id = 0,
      ev_userId = usr_id usr,
      ev_title = c_title c,
      ev_description = c_description c,
      ev_type = c_type c,
      ev_startTime = c_startTime c,
      ev_endTime = c_endTime c,
      ev_timezone = c_timezone c,
      ev_maxAttendees = attendeeLimit,
      ev_currentAttendees = 0,
      ev_dashboardTemplate = c_dashboardTemplate c,
      ev_settings = c_settings c,
      ev_zoomMeetingId = map_option (\<lambda>m. toString (zm_id m)) zoomMeeting,
      ev_zoomMeetingUrl = map_option zm_join_url zoomMeeting,
      ev_zoomPassword = map_option zm_password zoomMeeting,
      ev_zoomHostKey = map_option zm_start_url zoomMeeting\<rparr>"

definition createEvent :: "env \<Rightarrow> user \<Rightarrow> create_body \<Rightarrow> world \<Rightarrow> response \<times> world" where
  "createEvent en usr b w =
     (case readCreateBody b of
        None \<Rightarrow> (ValidationFailed, w)
      | Some c \<Rightarrow>
          (case checkSubscriptionLimits en usr c w of
             (Inl r, w1) \<Rightarrow> (r, w1)
           | (Inr (attendeeLimit, duration), w1) \<Rightarrow>
               (case checkTimes en c of
                  Some r \<Rightarrow> (r, w1)
                | None \<Rightarrow>
                    (case requestZoomMeeting en c duration w1 of
                       (zoomMeeting, w2) \<Rightarrow>
                         (case prisma_event_create en (newEventRow usr c attendeeLimit zoomMeeting) w2 of
                            (None, w3) \<Rightarrow> (ServerError, w3)
                          | (Some ev, w3) \<Rightarrow> (EventCreated ev zoomMeeting, w3))))))"

section \<open>PUT /api/events/:id: updating an event\<close>

text \<open>
  The body of an update. The handler spreads the whole body into the \<open>data\<close> of
  \<open>prisma.event.update\<close>, so every column a caller names is written; the columns the
  properties below read are kept here.
\<close>

record update_body =
  u_title :: "string option"
  u_description :: "string option"
  u_startTime :: "int field"
  u_endTime :: "int field"
  u_timezone :: "string option"
  u_maxAttendees :: "int option"
  u_currentAttendees :: "int option"

definition fieldValue :: "'a field \<Rightarrow> 'a option" where
  "fieldValue f = (case f of Present v \<Rightarrow> Some v | _ \<Rightarrow> None)"

text \<open>The validators: each field is optional; a title must not be empty once trimmed,
  a time must be ISO 8601.\<close>

definition updateBodyValid :: "update_body \<Rightarrow> bool" where
  "updateBodyValid b =
     ((case u_title b of None \<Rightarrow> True | Some t \<Rightarrow> trim t \<noteq> [])
      \<and> u_startTime b \<noteq> Malformed \<and> u_endTime b \<noteq> Malformed)"

text \<open>The title as the handler reads it, after the \<open>trim\<close> sanitizer.\<close>

definition updateTitle :: "update_body \<Rightarrow> string option" where
  "updateTitle b = map_option trim (u_title b)"

text \<open>The \<open>data\<close> object applied to the stored row: the given columns replace the old
  ones, the others stay.\<close>

definition applyUpdate :: "update_body \<Rightarrow> event \<Rightarrow> event" where
  "applyUpdate b e =
     e\<lparr>ev_title := orElse (updateTitle b) (ev_title e),
       ev_description := (case u_description b of None \<Rightarrow> ev_description e | Some d \<Rightarrow> Some d),
       ev_startTime := orElse (fieldValue (u_startTime b)) (ev_startTime e),
       ev_endTime := orElse (fieldValue (u_endTime b)) (ev_endTime e),
       ev_timezone := orElse (u_timezone b) (ev_timezone e),
       ev_maxAttendees := orElse (u_maxAttendees b) (ev_maxAttendees e),
       ev_currentAttendees := orElse (u_currentAttendees b) (ev_currentAttendees e)\<rparr>"

text \<open>The condition of the Zoom update: a truthy \<open>zoomMeetingId\<close> and a truthy title,
  start, end or description in the body.\<close>

definition zoomUpdateWanted :: "event \<Rightarrow> update_body \<Rightarrow> bool" where
  "zoomUpdateWanted existingEvent b =
     (truthy (ev_zoomMeetingId existingEvent)
      \<and> (truthy (updateTitle b) \<or> fieldValue (u_startTime b) \<noteq> None
          \<or> fieldValue (u_endTime b) \<noteq> None \<or> truthy (u_description b)))"

definition buildZoomUpdateData :: "update_body \<Rightarrow> zoomUpdateData" where
  "buildZoomUpdateData b =
     \<lparr>zu_topic = (if truthy (updateTitle b) then updateTitle b else None),
      zu_agenda = (if truthy (u_description b) then u_description b else None),
      zu_start_time = fieldValue (u_startTime b),
      zu_duration =
        (case fieldValue (u_endTime b) of
           None \<Rightarrow> None
         | Some e \<Rightarrow>
             (case fieldValue (u_startTime b) of
                None \<Rightarrow> None
              | Some s \<Rightarrow> Some (durationMinutes s e)))\<rparr>"

text \<open>The \<open>try\<close> around \<open>zoomService.updateMeeting\<close>: a throw is logged, nothing else.\<close>

definition syncZoomUpdate :: "env \<Rightarrow> event \<Rightarrow> update_body \<Rightarrow> world \<Rightarrow> world" where
  "syncZoomUpdate en existingEvent b w =
     (if zoomUpdateWanted existingEvent b
      then (let mid = orElse (ev_zoomMeetingId existingEvent) [];
                zoomUpdateData = buildZoomUpdateData b;
                w1 = logCall (ZoomUpdateMeeting mid zoomUpdateData) w
            in if zoom_updateMeeting en mid zoomUpdateData then w1
               else logCall (ConsoleError ''Failed to update Zoom meeting:'') w1)
      else w)"

definition updateEvent ::
  "env \<Rightarrow> user \<Rightarrow> nat \<Rightarrow> update_body \<Rightarrow> world \<Rightarrow> response \<times> world" where
  "updateEvent en usr eid b w =
     (if \<not> updateBodyValid b then (ValidationFailed, w)
      else (case prisma_event_findUnique en eid (usr_id usr) w of
              (None, w1) \<Rightarrow> (ServerError, w1)
            | (Some None, w1) \<Rightarrow> (EventNotFound, w1)
            | (Some (Some existingEvent), w1) \<Rightarrow>
                (case prisma_event_update en eid (applyUpdate b)
                        (syncZoomUpdate en existingEvent b w1) of
                   (None, w3) \<Rightarrow> (ServerError, w3)
                 | (Some updatedEvent, w3) \<Rightarrow> (EventUpdated updatedEvent, w3))))"

section \<open>DELETE /api/events/:id: deleting an event\<close>

text \<open>The \<open>try\<close> around \<open>zoomService.deleteMeeting\<close>.\<close>

definition syncZoomDelete :: "env \<Rightarrow> event \<Rightarrow> world \<Rightarrow> world" where
  "syncZoomDelete en ev w =
     (if truthy (ev_zoomMeetingId ev)
      then (let mid = orElse (ev_zoomMeetingId ev) [];
                w1 = logCall (ZoomDeleteMeeting mid) w
            in if zoom_deleteMeeting en mid then w1
               else logCall (ConsoleError ''Failed to delete Zoom meeting:'') w1)
      else w)"

definition deleteEvent :: "env \<Rightarrow> user \<Rightarrow> nat \<Rightarrow> world \<Rightarrow> response \<times> world" where
  "deleteEvent en usr eid w =
     (case prisma_event_findUnique en eid (usr_id usr) w of
        (None, w1) \<Rightarrow> (ServerError, w1)
      | (Some None, w1) \<Rightarrow> (EventNotFound, w1)
      | (Some (Some ev), w1) \<Rightarrow>
          (case prisma_event_delete en eid (syncZoomDelete en ev w1) of
             (False, w3) \<Rightarrow> (ServerError, w3)
           | (True, w3) \<Rightarrow> (EventDeleted, w3)))"

section \<open>POST /api/events/:id/attendees: registering an attendee\<close>

record register_body =
  r_email :: "string field"
  r_firstName :: "string option"
  r_lastName :: "string option"

text \<open>A registration that passed the validators: the normalised e-mail and the two
  trimmed names.\<close>

record registration =
  g_email :: string
  g_firstName :: string
  g_lastName :: string

definition readRegisterBody :: "register_body \<Rightarrow> registration option" where
  "readRegisterBody b =
     (case r_email b of
        Present email \<Rightarrow>
          (case r_firstName b of
             None \<Rightarrow> None
           | Some f \<Rightarrow>
               (case r_lastName b of
                  None \<Rightarrow> None
                | Some l \<Rightarrow>
                    if trim f = [] \<or> trim l = [] then None
                    else Some \<lparr>g_email = email, g_firstName = trim f, g_lastName = trim l\<rparr>))
      | _ \<Rightarrow> None)"

text \<open>\<open>findUnique\<close> with \<open>include: {_count: {select: {attendees: true}}}\<close>: the row
  and the number of attendee rows of the event, read in one query.\<close>

definition prisma_event_findWithCount ::
  "env \<Rightarrow> nat \<Rightarrow> nat \<Rightarrow> world \<Rightarrow> (event \<times> int) option option \<times> world" where
  "prisma_event_findWithCount en eid uid w =
     (case prisma_event_findUnique en eid uid w of
        (None, w1) \<Rightarrow> (None, w1)
      | (Some None, w1) \<Rightarrow> (Some None, w1)
      | (Some (Some ev), w1) \<Rightarrow> (Some (Some (ev, int (length (attendeesOf eid w)))), w1))"

definition newAttendeeRow :: "registration \<Rightarrow> nat \<Rightarrow> event \<Rightarrow> attendee" where
  "newAttendeeRow g eid ev =
     \<lparr>at_email = g_email g, at_firstName = g_firstName g, at_lastName = g_lastName g,
      at_eventId = eid, at_joinUrl = ev_zoomMeetingUrl ev\<rparr>"

definition incrementAttendees :: "event \<Rightarrow> event" where
  "incrementAttendees e = e\<lparr>ev_currentAttendees := ev_currentAttendees e + 1\<rparr>"

definition registerAttendee ::
  "env \<Rightarrow> user \<Rightarrow> nat \<Rightarrow> register_body \<Rightarrow> world \<Rightarrow> response \<times> world" where
  "registerAttendee en usr eid b w =
     (case readRegisterBody b of
        None \<Rightarrow> (ValidationFailed, w)
      | Some g \<Rightarrow>
          (case prisma_event_findWithCount en eid (usr_id usr) w of
             (None, w1) \<Rightarrow> (ServerError, w1)
           | (Some None, w1) \<Rightarrow> (EventNotFound, w1)
           | (Some (Some (ev, attendeeCount)), w1) \<Rightarrow>
               if attendeeCount \<ge> ev_maxAttendees ev
               then (EventFull (ev_maxAttendees ev) attendeeCount, w1)
               else (case prisma_attendee_findUnique en (g_email g) eid w1 of
                       (None, w2) \<Rightarrow> (ServerError, w2)
                     | (Some (Some existingAttendee), w2) \<Rightarrow> (AlreadyRegistered, w2)
                     | (Some None, w2) \<Rightarrow>
                         (case prisma_attendee_create en (newAttendeeRow g eid ev) w2 of
                            (None, w3) \<Rightarrow> (ServerError, w3)
                          | (Some att, w3) \<Rightarrow>
                              (case prisma_event_update en eid incrementAttendees w3 of
                                 (None, w4) \<Rightarrow> (ServerError, w4)
                               | (Some u, w4) \<Rightarrow> (AttendeeRegistered att, w4))))))"

subsection \<open>The same handler, one database call at a time\<close>

text \<open>
  Between two \<open>await\<close>s the handler runs alone; at an \<open>await\<close> another request may run.
  \<open>regStep\<close> performs the next database call of a registration and the code up to the
  following \<open>await\<close>; the position records which call is next and the constants the
  handler holds.
\<close>

datatype reg_pc =
  AtFindEvent
  | AtFindAttendee event
  | AtCreateAttendee event
  | AtIncrement attendee
  | Finished response

definition regStep ::
  "env \<Rightarrow> user \<Rightarrow> nat \<Rightarrow> registration \<Rightarrow> reg_pc \<Rightarrow> world \<Rightarrow> reg_pc \<times> world" where
  "regStep en usr eid g pc w =
     (case pc of
        AtFindEvent \<Rightarrow>
          (case prisma_event_findWithCount en eid (usr_id usr) w of
             (None, w1) \<Rightarrow> (Finished ServerError, w1)
           | (Some None, w1) \<Rightarrow> (Finished EventNotFound, w1)
           | (Some (Some (ev, attendeeCount)), w1) \<Rightarrow>
               if attendeeCount \<ge> ev_maxAttendees ev
               then (Finished (EventFull (ev_maxAttendees ev) attendeeCount), w1)
               else (AtFindAttendee ev, w1))
      | AtFindAttendee ev \<Rightarrow>
          (case prisma_attendee_findUnique en (g_email g) eid w of
             (None, w2) \<Rightarrow> (Finished ServerError, w2)
           | (Some (Some existingAttendee), w2) \<Rightarrow> (Finished AlreadyRegistered, w2)
           | (Some None, w2) \<Rightarrow> (AtCreateAttendee ev, w2))
      | AtCreateAttendee ev \<Rightarrow>
          (case prisma_attendee_create en (newAttendeeRow g eid ev) w of
             (None, w3) \<Rightarrow> (Finished ServerError, w3)
           | (Some att, w3) \<Rightarrow> (AtIncrement att, w3))
      | AtIncrement att \<Rightarrow>
          (case prisma_event_update en eid incrementAttendees w of
             (None, w4) \<Rightarrow> (Finished ServerError, w4)
           | (Some u, w4) \<Rightarrow> (Finished (AttendeeRegistered att), w4))
      | Finished r \<Rightarrow> (Finished r, w))"

text \<open>Two registrations for the same event by the same caller; the schedule says whose
  turn each step is (\<open>True\<close>: the first request).\<close>

fun runSchedule ::
  "env \<Rightarrow> user \<Rightarrow> nat \<Rightarrow> registration \<Rightarrow> registration \<Rightarrow> bool list
     \<Rightarrow> reg_pc \<times> reg_pc \<times> world \<Rightarrow> reg_pc \<times> reg_pc \<times> world" where
  "runSchedule en usr eid g1 g2 [] cfg = cfg"
| "runSchedule en usr eid g1 g2 (True # sched) (pc1, pc2, w) =
     (case regStep en usr eid g1 pc1 w of
        (pc1', w') \<Rightarrow> runSchedule en usr eid g1 g2 sched (pc1', pc2, w'))"
| "runSchedule en usr eid g1 g2 (False # sched) (pc1, pc2, w) =
     (case regStep en usr eid g2 pc2 w of
        (pc2', w') \<Rightarrow> runSchedule en usr eid g1 g2 sched (pc1, pc2', w'))"

section \<open>The evaluator of the specification\<close>

text \<open>
  The specification states the subscription checks as a function
  \<open>evaluateTierLimits(tier, existingEventCount, requestedAttendees,
  requestedDurationMinutes)\<close> with three rules in a fixed order. This definition follows
  the specification's words; the theorems compare the handler with it. \<open>None\<close> is
  \<open>allow\<close>.
\<close>

definition spec_evaluateTierLimits :: "tier \<Rightarrow> int \<Rightarrow> int \<Rightarrow> int \<Rightarrow> response option" where
  "spec_evaluateTierLimits t existingEventCount requestedAttendees requestedDurationMinutes =
     (let lim = SUBSCRIPTION_LIMITS t
      in if maxEvents lim \<noteq> - 1 \<and> existingEventCount \<ge> maxEvents lim
         then Some (EventLimitExceeded (maxEvents lim) existingEventCount)
         else if requestedAttendees > maxAttendees lim
         then Some (AttendeeLimitExceeded (maxAttendees lim) requestedAttendees)
         else if maxDuration lim \<noteq> - 1 \<and> requestedDurationMinutes > maxDuration lim
         then Some (DurationLimitExceeded (maxDuration lim) requestedDurationMinutes)
         else None)"

definition isLimitDenial :: "response \<Rightarrow> bool" where
  "isLimitDenial r =
     (case r of
        EventLimitExceeded l k \<Rightarrow> True
      | AttendeeLimitExceeded l k \<Rightarrow> True
      | DurationLimitExceeded l k \<Rightarrow> True
      | _ \<Rightarrow> False)"

section \<open>Example requests and worlds\<close>

definition exEnv :: env where
  "exEnv = \<lparr>clock = 1000, zoom_createMeeting = (\<lambda>m. None),
            zoom_updateMeeting = (\<lambda>i d. False), zoom_deleteMeeting = (\<lambda>i. False),
            store_fails = (\<lambda>p. False)\<rparr>"

definition trialUser :: user where
  "trialUser = \<lparr>usr_id = 7, subscriptionTier = TRIAL\<rparr>"

definition standardUser :: user where
  "standardUser = \<lparr>usr_id = 8, subscriptionTier = STANDARD\<rparr>"

text \<open>A one-hour meeting starting one minute after the epoch, no \<open>maxAttendees\<close>.\<close>

definition exBody :: create_body where
  "exBody = \<lparr>b_title = Some ''Demo'', b_description = None, b_type = None,
             b_startTime = Present 60000, b_endTime = Present 3660000,
             b_timezone = None, b_maxAttendees = Absent, b_dashboardTemplate = None,
             b_settings = None, b_createZoomMeeting = None\<rparr>"

definition exFields :: create_fields where
  "exFields = \<lparr>c_title = ''Demo'', c_description = None, c_type = ''MEETING'',
               c_startTime = 60000, c_endTime = 3660000, c_timezone = ''UTC'',
               c_maxAttendees = None, c_dashboardTemplate = ''CLASSIC'',
               c_settings = ''{}'', c_createZoomMeeting = True\<rparr>"

text \<open>An event of user 7 with a Zoom meeting attached and room for one attendee.\<close>

definition exEvent :: "nat \<Rightarrow> event" where
  "exEvent i =
     \<lparr>ev_id = i, ev_userId = 7, ev_title = ''Demo'', ev_description = None,
      ev_type = ''MEETING'', ev_startTime = 60000, ev_endTime = 3660000,
      ev_timezone = ''UTC'', ev_maxAttendees = 1, ev_currentAttendees = 0,
      ev_dashboardTemplate = ''CLASSIC'', ev_settings = ''{}'',
      ev_zoomMeetingId = Some ''88'', ev_zoomMeetingUrl = Some ''https://zoom.us/j/88'',
      ev_zoomPassword = Some ''pw'', ev_zoomHostKey = Some ''https://zoom.us/s/88''\<rparr>"

definition emptyWorld :: world where
  "emptyWorld = \<lparr>w_events = [], w_attendees = [], w_nextId = 11, w_trace = []\<rparr>"

definition oneEventWorld :: world where
  "oneEventWorld = \<lparr>w_events = [exEvent 11], w_attendees = [], w_nextId = 12, w_trace = []\<rparr>"

definition trialWorld :: world where
  "trialWorld =
     \<lparr>w_events = [exEvent 11, exEvent 12, exEvent 13], w_attendees = [], w_nextId = 14,
      w_trace = []\<rparr>"

definition noUpdate :: update_body where
  "noUpdate = \<lparr>u_title = None, u_description = None, u_startTime = Absent,
               u_endTime = Absent, u_timezone = None, u_maxAttendees = None,
               u_currentAttendees = None\<rparr>"

definition regA :: registration where
  "regA = \<lparr>g_email = ''a@example.org'', g_firstName = ''Ada'', g_lastName = ''A''\<rparr>"

definition regB :: registration where
  "regB = \<lparr>g_email = ''b@example.org'', g_firstName = ''Bob'', g_lastName = ''B''\<rparr>"

definition bodyA :: register_body where
  "bodyA = \<lparr>r_email = Present ''a@example.org'', r_firstName = Some ''Ada'',
            r_lastName = Some ''A''\<rparr>"

definition bodyB :: register_body where
  "bodyB = \<lparr>r_email = Present ''b@example.org'', r_firstName = Some ''Bob'',
            r_lastName = Some ''B''\<rparr>"

text \<open>A meeting of 240.2 minutes.\<close>

definition longBody :: create_body where
  "longBody = exBody\<lparr>b_endTime := Present 14472000\<rparr>"

definition longFields :: create_fields where
  "longFields = exFields\<lparr>c_endTime := 14472000\<rparr>"

text \<open>Three updates: a later end only, an end before the start, an emptied
  description.\<close>

definition endOnlyUpdate :: update_body where
  "endOnlyUpdate = noUpdate\<lparr>u_endTime := Present 7260000\<rparr>"

definition earlyEndUpdate :: update_body where
  "earlyEndUpdate = noUpdate\<lparr>u_endTime := Present 30000\<rparr>"

definition clearDescription :: update_body where
  "clearDescription = noUpdate\<lparr>u_description := Some []\<rparr>"

text \<open>An update of title and both times.\<close>

definition fullUpdate :: update_body where
  "fullUpdate = noUpdate\<lparr>u_title := Some ''Demo 2'', u_startTime := Present 120000,
                          u_endTime := Present 3750000\<rparr>"

text \<open>A world whose event has its counter at the maximum and no attendee row.\<close>

definition counterFullWorld :: world where
  "counterFullWorld =
     \<lparr>w_events = [(exEvent 11)\<lparr>ev_currentAttendees := 1\<rparr>], w_attendees = [], w_nextId = 12,
      w_trace = []\<rparr>"

section \<open>Duration in minutes\<close>

text \<open>The ceiling of the quotient, in integers: \<open>durationMinutes\<close> is the least number
  of whole minutes that covers the span.\<close>

lemma durationMinutes_div: "durationMinutes s e = - ((s - e) div 60000)"
proof -
  have "durationMinutes s e = \<lceil>real_of_int (e - s) / real_of_int 60000\<rceil>"
    by (simp add: durationMinutes_def)
  also have "\<dots> = - (- (e - s) div 60000)"
    by (rule ceiling_divide_eq_div)
  finally show ?thesis by simp
qed

lemma durationMinutes_iff:
  "(durationMinutes s e = m) = (60000 * (m - 1) < e - s \<and> e - s \<le> 60000 * m)"
proof -
  have "(durationMinutes s e = m) =
        (real_of_int m - 1 < real_of_int (e - s) / 60000 \<and> real_of_int (e - s) / 60000 \<le> real_of_int m)"
    unfolding durationMinutes_def by (simp add: ceiling_eq_iff)
  also have "\<dots> = (60000 * (real_of_int m - 1) < real_of_int (e - s) \<and> real_of_int (e - s) \<le> 60000 * real_of_int m)"
    by (simp add: field_simps)
  also have "\<dots> = (real_of_int (60000 * (m - 1)) < real_of_int (e - s) \<and> real_of_int (e - s) \<le> real_of_int (60000 * m))"
    by simp
  also have "\<dots> = (60000 * (m - 1) < e - s \<and> e - s \<le> 60000 * m)"
    by (simp only: of_int_less_iff of_int_le_iff)
  finally show ?thesis .
qed

lemma durationMinutes_le_iff: "(durationMinutes s e \<le> m) = (e - s \<le> 60000 * m)"
proof -
  have "(durationMinutes s e \<le> m) = (real_of_int (e - s) / 60000 \<le> real_of_int m)"
    unfolding durationMinutes_def by (simp add: ceiling_le_iff)
  also have "\<dots> = (real_of_int (e - s) \<le> real_of_int (60000 * m))"
    by (simp add: field_simps)
  also have "\<dots> = (e - s \<le> 60000 * m)"
    by (simp only: of_int_le_iff)
  finally show ?thesis .
qed

section \<open>The subscription checks of event creation\<close>

lemma limits_simps [simp]:
  "SUBSCRIPTION_LIMITS TRIAL = \<lparr>maxEvents = 3, maxAttendees = 12, maxDuration = 60\<rparr>"
  "SUBSCRIPTION_LIMITS STANDARD = \<lparr>maxEvents = 10, maxAttendees = 250, maxDuration = 240\<rparr>"
  "SUBSCRIPTION_LIMITS PRO = \<lparr>maxEvents = - 1, maxAttendees = 500, maxDuration = - 1\<rparr>"
  by (simp_all add: SUBSCRIPTION_LIMITS_def)

lemma checkSubscriptionLimits_spec:
  assumes "\<not> store_fails en EventCount"
  shows "fst (checkSubscriptionLimits en usr c w) =
     (case spec_evaluateTierLimits (subscriptionTier usr)
             (int (length (eventsOf (usr_id usr) w)))
             (orDefault (c_maxAttendees c) (maxAttendees (SUBSCRIPTION_LIMITS (subscriptionTier usr))))
             (durationMinutes (c_startTime c) (c_endTime c)) of
        Some r \<Rightarrow> Inl r
      | None \<Rightarrow> Inr (orDefault (c_maxAttendees c) (maxAttendees (SUBSCRIPTION_LIMITS (subscriptionTier usr))),
                     durationMinutes (c_startTime c) (c_endTime c)))"
  using assms
  by (simp add: checkSubscriptionLimits_def spec_evaluateTierLimits_def prisma_event_count_def Let_def)

lemma checkSubscriptionLimits_world:
  "snd (checkSubscriptionLimits en usr c w) =
     (if maxEvents (SUBSCRIPTION_LIMITS (subscriptionTier usr)) \<noteq> - 1
      then logCall (Store EventCount) w else w)"
  by (simp add: checkSubscriptionLimits_def prisma_event_count_def Let_def)

lemma createEvent_denied:
  assumes "readCreateBody b = Some c" and "fst (checkSubscriptionLimits en usr c w) = Inl r"
  shows "createEvent en usr b w = (r, snd (checkSubscriptionLimits en usr c w))"
  using assms by (cases "checkSubscriptionLimits en usr c w") (simp add: createEvent_def)

lemma checkTimes_cases:
  "checkTimes en c = Some r \<Longrightarrow> r = InvalidStartTime \<or> r = InvalidEndTime"
  by (simp add: checkTimes_def split: if_splits)

lemma createEvent_passed:
  assumes "readCreateBody b = Some c" and "fst (checkSubscriptionLimits en usr c w) = Inr p"
  shows "\<not> isLimitDenial (fst (createEvent en usr b w))"
proof -
  obtain a d where p: "p = (a, d)" by (cases p)
  obtain w1 where c: "checkSubscriptionLimits en usr c w = (Inr (a, d), w1)"
    using assms(2) p by (cases "checkSubscriptionLimits en usr c w") simp
  show ?thesis
  proof (cases "checkTimes en c")
    case None
    then show ?thesis
      by (simp add: createEvent_def assms(1) c isLimitDenial_def prisma_event_create_def Let_def
           split: option.splits prod.splits)
  next
    case (Some r)
    then show ?thesis using checkTimes_cases [OF Some]
      by (auto simp add: createEvent_def assms(1) c isLimitDenial_def)
  qed
qed

lemma createEvent_spec:
  assumes "readCreateBody b = Some c" and "\<not> store_fails en EventCount"
  shows "(case spec_evaluateTierLimits (subscriptionTier usr)
             (int (length (eventsOf (usr_id usr) w)))
             (orDefault (c_maxAttendees c) (maxAttendees (SUBSCRIPTION_LIMITS (subscriptionTier usr))))
             (durationMinutes (c_startTime c) (c_endTime c)) of
        Some r \<Rightarrow> fst (createEvent en usr b w) = r
      | None \<Rightarrow> \<not> isLimitDenial (fst (createEvent en usr b w)))"
proof (cases "spec_evaluateTierLimits (subscriptionTier usr)
             (int (length (eventsOf (usr_id usr) w)))
             (orDefault (c_maxAttendees c) (maxAttendees (SUBSCRIPTION_LIMITS (subscriptionTier usr))))
             (durationMinutes (c_startTime c) (c_endTime c))")
  case None
  then have "\<exists>p. fst (checkSubscriptionLimits en usr c w) = Inr p"
    using checkSubscriptionLimits_spec [OF assms(2), of usr c w] by simp
  then show ?thesis using None createEvent_passed [OF assms(1)] by auto
next
  case (Some r)
  then have "fst (checkSubscriptionLimits en usr c w) = Inl r"
    using checkSubscriptionLimits_spec [OF assms(2), of usr c w] by simp
  then show ?thesis using Some createEvent_denied [OF assms(1)] by simp
qed

text \<open>
  Claim C1. On a request that passed the validators (and whose count query did not
  throw), event creation checks the event count, then the attendee count, then the
  duration, and the first check that fails alone decides the answer: it is
  \<open>EventLimitExceeded\<close> with the limit and the current count exactly when \<open>maxEvents\<close> is
  not \<open>-1\<close> and the caller already has \<open>maxEvents\<close> events or more (never for PRO);
  otherwise \<open>AttendeeLimitExceeded\<close> with the limit and the requested number exactly when
  the requested number is above \<open>maxAttendees\<close>; otherwise \<open>DurationLimitExceeded\<close>
  exactly when \<open>maxDuration\<close> is not \<open>-1\<close> and the duration is above it; otherwise no
  limit denial at all. The handler agrees with the evaluator of the specification, and
  the limit triples are (3, 12, 60), (10, 250, 240) and (-1, 500, -1).
\<close>

theorem tier_limits_fail_fast:
  assumes "readCreateBody b = Some c"
    and "\<not> store_fails en EventCount"
    and "lims = SUBSCRIPTION_LIMITS (subscriptionTier usr)"
    and "n = int (length (eventsOf (usr_id usr) w))"
    and "a = orDefault (c_maxAttendees c) (maxAttendees lims)"
    and "d = durationMinutes (c_startTime c) (c_endTime c)"
    and "r = fst (createEvent en usr b w)"
    and "overEvents = (maxEvents lims \<noteq> - 1 \<and> n \<ge> maxEvents lims)"
    and "overAttendees = (a > maxAttendees lims)"
    and "overDuration = (maxDuration lims \<noteq> - 1 \<and> d > maxDuration lims)"
  shows "((\<exists>l k. r = EventLimitExceeded l k) = overEvents)
       \<and> (overEvents \<longrightarrow> r = EventLimitExceeded (maxEvents lims) n)
       \<and> ((\<exists>l k. r = AttendeeLimitExceeded l k) = (\<not> overEvents \<and> overAttendees))
       \<and> (\<not> overEvents \<and> overAttendees \<longrightarrow> r = AttendeeLimitExceeded (maxAttendees lims) a)
       \<and> ((\<exists>l k. r = DurationLimitExceeded l k) = (\<not> overEvents \<and> \<not> overAttendees \<and> overDuration))
       \<and> (\<not> overEvents \<and> \<not> overAttendees \<and> overDuration
            \<longrightarrow> r = DurationLimitExceeded (maxDuration lims) d)
       \<and> (isLimitDenial r = (overEvents \<or> overAttendees \<or> overDuration))
       \<and> (subscriptionTier usr = PRO \<longrightarrow> \<not> overEvents)
       \<and> (case spec_evaluateTierLimits (subscriptionTier usr) n a d of
             Some denial \<Rightarrow> r = denial | None \<Rightarrow> \<not> isLimitDenial r)
       \<and> SUBSCRIPTION_LIMITS TRIAL = \<lparr>maxEvents = 3, maxAttendees = 12, maxDuration = 60\<rparr>
       \<and> SUBSCRIPTION_LIMITS STANDARD = \<lparr>maxEvents = 10, maxAttendees = 250, maxDuration = 240\<rparr>
       \<and> SUBSCRIPTION_LIMITS PRO = \<lparr>maxEvents = - 1, maxAttendees = 500, maxDuration = - 1\<rparr>"
proof -
  have sp: "(case spec_evaluateTierLimits (subscriptionTier usr) n a d of
             Some denial \<Rightarrow> r = denial | None \<Rightarrow> \<not> isLimitDenial r)"
    unfolding assms(5) assms(3) assms(4) assms(6) assms(7)
    by (rule createEvent_spec [OF assms(1,2)])
  have pro: "subscriptionTier usr = PRO \<longrightarrow> \<not> overEvents"
    using assms(3,8) by simp
  consider (e) "overEvents" | (a) "\<not> overEvents" "overAttendees"
    | (d) "\<not> overEvents" "\<not> overAttendees" "overDuration"
    | (ok) "\<not> overEvents" "\<not> overAttendees" "\<not> overDuration"
    by blast
  then have main: "((\<exists>l k. r = EventLimitExceeded l k) = overEvents)
       \<and> (overEvents \<longrightarrow> r = EventLimitExceeded (maxEvents lims) n)
       \<and> ((\<exists>l k. r = AttendeeLimitExceeded l k) = (\<not> overEvents \<and> overAttendees))
       \<and> (\<not> overEvents \<and> overAttendees \<longrightarrow> r = AttendeeLimitExceeded (maxAttendees lims) a)
       \<and> ((\<exists>l k. r = DurationLimitExceeded l k) = (\<not> overEvents \<and> \<not> overAttendees \<and> overDuration))
       \<and> (\<not> overEvents \<and> \<not> overAttendees \<and> overDuration
            \<longrightarrow> r = DurationLimitExceeded (maxDuration lims) d)
       \<and> (isLimitDenial r = (overEvents \<or> overAttendees \<or> overDuration))"
  proof cases
    case e
    then have "r = EventLimitExceeded (maxEvents lims) n"
      using sp assms(3,8) by (auto simp add: spec_evaluateTierLimits_def Let_def split: if_splits)
    then show ?thesis using e by (simp add: isLimitDenial_def)
  next
    case a
    then have "r = AttendeeLimitExceeded (maxAttendees lims) a"
      using sp assms(3,8,9) by (auto simp add: spec_evaluateTierLimits_def Let_def split: if_splits)
    then show ?thesis using a by (simp add: isLimitDenial_def)
  next
    case d
    then have "r = DurationLimitExceeded (maxDuration lims) d"
      using sp assms(3,8,9,10) by (auto simp add: spec_evaluateTierLimits_def Let_def split: if_splits)
    then show ?thesis using d by (simp add: isLimitDenial_def)
  next
    case ok
    then have "\<not> isLimitDenial r"
      using sp assms(3,8,9,10) by (auto simp add: spec_evaluateTierLimits_def Let_def split: if_splits)
    then show ?thesis using ok by (auto simp add: isLimitDenial_def)
  qed
  show ?thesis using main sp pro by simp
qed

theorem tier_limits_fail_fast_witness:
  "readCreateBody exBody = Some exFields \<and> \<not> store_fails exEnv EventCount
   \<and> fst (createEvent exEnv trialUser exBody trialWorld) = EventLimitExceeded 3 3"
proof -
  have h1: "readCreateBody exBody = Some exFields"
    by (simp add: readCreateBody_def exBody_def exFields_def trim_def isSpace_def orElse_def)
  have h2: "\<not> store_fails exEnv EventCount"
    by (simp add: exEnv_def)
  have h4: "(3::int) = int (length (eventsOf (usr_id trialUser) trialWorld))"
    by (simp add: eventsOf_def trialUser_def trialWorld_def exEvent_def)
  note t = tier_limits_fail_fast [where usr = trialUser and w = trialWorld and en = exEnv,
      OF h1 h2 refl h4 refl refl refl refl refl refl]
  have "fst (createEvent exEnv trialUser exBody trialWorld)
        = EventLimitExceeded (maxEvents (SUBSCRIPTION_LIMITS (subscriptionTier trialUser))) 3"
    using t by (simp add: trialUser_def)
  then show ?thesis using h1 h2 by (simp add: trialUser_def)
qed

lemma readCreateBody_maxAttendees:
  assumes "readCreateBody b = Some c"
  shows "c_maxAttendees c = fieldValue (b_maxAttendees b)"
    and "\<forall>n. b_maxAttendees b = Present n \<longrightarrow> 1 \<le> n"
  using assms
  by (auto simp add: readCreateBody_def fieldValue_def split: option.splits field.splits if_splits)

lemma createEvent_invalid:
  "readCreateBody b = None \<Longrightarrow> createEvent en usr b w = (ValidationFailed, w)"
  by (simp add: createEvent_def)

lemma checkSubscriptionLimits_Inl:
  assumes "fst (checkSubscriptionLimits en usr c w) = Inl r"
  shows "r = ServerError
       \<or> (\<exists>k. r = EventLimitExceeded (maxEvents (SUBSCRIPTION_LIMITS (subscriptionTier usr))) k)
       \<or> (r = AttendeeLimitExceeded (maxAttendees (SUBSCRIPTION_LIMITS (subscriptionTier usr)))
                (orDefault (c_maxAttendees c) (maxAttendees (SUBSCRIPTION_LIMITS (subscriptionTier usr))))
           \<and> orDefault (c_maxAttendees c) (maxAttendees (SUBSCRIPTION_LIMITS (subscriptionTier usr)))
               > maxAttendees (SUBSCRIPTION_LIMITS (subscriptionTier usr)))
       \<or> (\<exists>k. r = DurationLimitExceeded (maxDuration (SUBSCRIPTION_LIMITS (subscriptionTier usr))) k)"
  using assms
  by (auto simp add: checkSubscriptionLimits_def prisma_event_count_def Let_def split: if_splits)

lemma checkSubscriptionLimits_Inr:
  assumes "fst (checkSubscriptionLimits en usr c w) = Inr (a, d)"
  shows "a = orDefault (c_maxAttendees c) (maxAttendees (SUBSCRIPTION_LIMITS (subscriptionTier usr)))"
    and "d = durationMinutes (c_startTime c) (c_endTime c)"
    and "a \<le> maxAttendees (SUBSCRIPTION_LIMITS (subscriptionTier usr))"
  using assms
  by (auto simp add: checkSubscriptionLimits_def prisma_event_count_def Let_def split: if_splits)

text \<open>What a 201 answer says about the run that produced it.\<close>

lemma createEvent_created:
  assumes "createEvent en usr b w = (EventCreated ev z, w')"
  shows "\<exists>c a d w2. readCreateBody b = Some c
           \<and> fst (checkSubscriptionLimits en usr c w) = Inr (a, d)
           \<and> checkTimes en c = None
           \<and> requestZoomMeeting en c d (snd (checkSubscriptionLimits en usr c w)) = (z, w2)
           \<and> ev = (newEventRow usr c a z)\<lparr>ev_id := w_nextId w\<rparr>
           \<and> w_events w' = w_events w @ [ev]
           \<and> w_attendees w' = w_attendees w"
proof (cases "readCreateBody b")
  case None
  then show ?thesis using assms by (simp add: createEvent_def)
next
  case (Some c)
  obtain x w1 where cl: "checkSubscriptionLimits en usr c w = (x, w1)"
    by (cases "checkSubscriptionLimits en usr c w")
  have w1: "w_events w1 = w_events w \<and> w_nextId w1 = w_nextId w \<and> w_attendees w1 = w_attendees w"
    using checkSubscriptionLimits_world [of en usr c w] cl by (simp add: logCall_def)
  show ?thesis
  proof (cases x)
    case (Inl r)
    then have "r = ServerError \<or> isLimitDenial r"
      using checkSubscriptionLimits_Inl [of en usr c w r] cl by (auto simp add: isLimitDenial_def)
    then show ?thesis using assms Some cl Inl by (auto simp add: createEvent_def isLimitDenial_def)
  next
    case (Inr p)
    obtain a d where p: "p = (a, d)" by (cases p)
    show ?thesis
    proof (cases "checkTimes en c")
      case (Some r)
      then show ?thesis using assms \<open>readCreateBody b = Some c\<close> cl Inr p checkTimes_cases [OF Some]
        by (auto simp add: createEvent_def)
    next
      case None
      obtain z2 w2 where rz: "requestZoomMeeting en c d w1 = (z2, w2)"
        by (cases "requestZoomMeeting en c d w1")
      have w2: "w_events w2 = w_events w1 \<and> w_nextId w2 = w_nextId w1 \<and> w_attendees w2 = w_attendees w1"
        using rz by (auto simp add: requestZoomMeeting_def logCall_def Let_def split: if_splits option.splits)
      show ?thesis
        using assms \<open>readCreateBody b = Some c\<close> cl Inr p None rz w1 w2
        by (auto simp add: createEvent_def prisma_event_create_def logCall_def Let_def split: if_splits)
    qed
  qed
qed

text \<open>
  Claim C5. The duration compared with the cap is the ceiling of the span in minutes:
  it is \<open>m\<close> exactly when the span is above \<open>m - 1\<close> minutes and at most \<open>m\<close> minutes, so
  240.2 minutes count as 241 and 60.5 minutes as 61. Where the two earlier checks pass
  and the tier has a cap, a span of exactly the cap is not denied, a span above the cap
  by at most a minute is denied with \<open>DurationLimitExceeded\<close> carrying the cap and the
  cap plus one, and 240.2 minutes are denied against the 240 minutes of STANDARD.
\<close>

theorem duration_rounds_up:
  assumes "readCreateBody b = Some c"
    and "\<not> store_fails en EventCount"
    and "lims = SUBSCRIPTION_LIMITS (subscriptionTier usr)"
    and "\<not> (maxEvents lims \<noteq> - 1 \<and> int (length (eventsOf (usr_id usr) w)) \<ge> maxEvents lims)"
    and "\<not> orDefault (c_maxAttendees c) (maxAttendees lims) > maxAttendees lims"
    and "maxDuration lims \<noteq> - 1"
    and "r = fst (createEvent en usr b w)"
    and "ms = c_endTime c - c_startTime c"
  shows "durationMinutes (c_startTime c) (c_endTime c) = \<lceil>real_of_int ms / 60000\<rceil>
       \<and> ((durationMinutes (c_startTime c) (c_endTime c) = m)
            = (60000 * (m - 1) < ms \<and> ms \<le> 60000 * m))
       \<and> (ms = 60000 * maxDuration lims \<longrightarrow> \<not> isLimitDenial r)
       \<and> (isLimitDenial r = (60000 * maxDuration lims < ms))
       \<and> (60000 * maxDuration lims < ms \<and> ms \<le> 60000 * (maxDuration lims + 1)
            \<longrightarrow> r = DurationLimitExceeded (maxDuration lims) (maxDuration lims + 1))
       \<and> (subscriptionTier usr = STANDARD \<and> ms = 14412000
            \<longrightarrow> r = DurationLimitExceeded 240 241)
       \<and> durationMinutes 0 14412000 = 241
       \<and> durationMinutes 0 3630000 = 61"
proof -
  let ?d = "durationMinutes (c_startTime c) (c_endTime c)"
  have sp: "(case spec_evaluateTierLimits (subscriptionTier usr)
             (int (length (eventsOf (usr_id usr) w)))
             (orDefault (c_maxAttendees c) (maxAttendees lims)) ?d of
        Some x \<Rightarrow> r = x | None \<Rightarrow> \<not> isLimitDenial r)"
    unfolding assms(3) assms(7) by (rule createEvent_spec [OF assms(1,2)])
  have over: "(maxDuration lims < ?d) = (60000 * maxDuration lims < ms)"
    using durationMinutes_le_iff [of "c_startTime c" "c_endTime c" "maxDuration lims"] assms(8)
    by auto
  have denied: "maxDuration lims < ?d \<Longrightarrow> r = DurationLimitExceeded (maxDuration lims) ?d"
    using sp assms(3-6) by (auto simp add: spec_evaluateTierLimits_def Let_def split: if_splits)
  have allowed: "\<not> maxDuration lims < ?d \<Longrightarrow> \<not> isLimitDenial r"
    using sp assms(3-6) by (auto simp add: spec_evaluateTierLimits_def Let_def split: if_splits)
  have c1: "?d = \<lceil>real_of_int ms / 60000\<rceil>"
    by (simp add: durationMinutes_def assms(8))
  have c2: "(?d = m) = (60000 * (m - 1) < ms \<and> ms \<le> 60000 * m)"
    unfolding assms(8) by (rule durationMinutes_iff)
  have c4: "isLimitDenial r = (60000 * maxDuration lims < ms)"
    using denied allowed over by (auto simp add: isLimitDenial_def)
  have c3: "ms = 60000 * maxDuration lims \<longrightarrow> \<not> isLimitDenial r"
    using c4 by simp
  have c5: "60000 * maxDuration lims < ms \<and> ms \<le> 60000 * (maxDuration lims + 1)
            \<longrightarrow> r = DurationLimitExceeded (maxDuration lims) (maxDuration lims + 1)"
  proof
    assume h: "60000 * maxDuration lims < ms \<and> ms \<le> 60000 * (maxDuration lims + 1)"
    then have "?d = maxDuration lims + 1"
      using durationMinutes_iff [of "c_startTime c" "c_endTime c" "maxDuration lims + 1"] assms(8)
      by simp
    then show "r = DurationLimitExceeded (maxDuration lims) (maxDuration lims + 1)"
      using denied over h by simp
  qed
  have c6: "subscriptionTier usr = STANDARD \<and> ms = 14412000
            \<longrightarrow> r = DurationLimitExceeded 240 241"
    using c5 assms(3) by simp
  have c7: "durationMinutes 0 14412000 = 241"
    by (simp add: durationMinutes_iff)
  have c8: "durationMinutes 0 3630000 = 61"
    by (simp add: durationMinutes_iff)
  show ?thesis using c1 c2 c3 c4 c5 c6 c7 c8 by blast
qed

theorem duration_rounds_up_witness:
  "readCreateBody longBody = Some longFields \<and> \<not> store_fails exEnv EventCount
   \<and> maxDuration (SUBSCRIPTION_LIMITS (subscriptionTier standardUser)) \<noteq> - 1
   \<and> durationMinutes (c_startTime longFields) (c_endTime longFields) = 241
   \<and> fst (createEvent exEnv standardUser longBody emptyWorld) = DurationLimitExceeded 240 241"
proof -
  have h1: "readCreateBody longBody = Some longFields"
    by (simp add: readCreateBody_def longBody_def longFields_def exBody_def exFields_def
        trim_def isSpace_def orElse_def)
  have h2: "\<not> store_fails exEnv EventCount"
    by (simp add: exEnv_def)
  have h4: "\<not> (maxEvents (SUBSCRIPTION_LIMITS (subscriptionTier standardUser)) \<noteq> - 1
      \<and> int (length (eventsOf (usr_id standardUser) emptyWorld))
          \<ge> maxEvents (SUBSCRIPTION_LIMITS (subscriptionTier standardUser)))"
    by (simp add: standardUser_def eventsOf_def emptyWorld_def)
  have h5: "\<not> orDefault (c_maxAttendees longFields)
        (maxAttendees (SUBSCRIPTION_LIMITS (subscriptionTier standardUser)))
      > maxAttendees (SUBSCRIPTION_LIMITS (subscriptionTier standardUser))"
    by (simp add: standardUser_def longFields_def exFields_def orDefault_def)
  have h6: "maxDuration (SUBSCRIPTION_LIMITS (subscriptionTier standardUser)) \<noteq> - 1"
    by (simp add: standardUser_def)
  note t = duration_rounds_up [where usr = standardUser and w = emptyWorld and en = exEnv
      and m = 241, OF h1 h2 refl h4 h5 h6 refl refl]
  have ms: "c_endTime longFields - c_startTime longFields = 14412000"
    by (simp add: longFields_def exFields_def)
  have "durationMinutes (c_startTime longFields) (c_endTime longFields) = 241"
    using t ms by simp
  moreover have "fst (createEvent exEnv standardUser longBody emptyWorld)
      = DurationLimitExceeded 240 241"
    using t ms by (simp add: standardUser_def)
  ultimately show ?thesis using h1 h2 h6 by simp
qed

lemma attendee_denial_origin:
  assumes "fst (createEvent en usr b w) = AttendeeLimitExceeded l k"
  shows "\<exists>n. b_maxAttendees b = Present n
           \<and> maxAttendees (SUBSCRIPTION_LIMITS (subscriptionTier usr)) < n
           \<and> l = maxAttendees (SUBSCRIPTION_LIMITS (subscriptionTier usr)) \<and> k = n"
proof (cases "readCreateBody b")
  case None
  then show ?thesis using assms by (simp add: createEvent_invalid)
next
  case (Some c)
  let ?L = "maxAttendees (SUBSCRIPTION_LIMITS (subscriptionTier usr))"
  show ?thesis
  proof (cases "fst (checkSubscriptionLimits en usr c w)")
    case (Inr p)
    have "\<not> isLimitDenial (AttendeeLimitExceeded l k)"
      using createEvent_passed [OF Some Inr] assms by simp
    then show ?thesis by (simp add: isLimitDenial_def)
  next
    case (Inl x)
    have "createEvent en usr b w = (x, snd (checkSubscriptionLimits en usr c w))"
      by (rule createEvent_denied [OF Some Inl])
    then have x: "x = AttendeeLimitExceeded l k"
      using assms by simp
    have lk: "l = ?L \<and> k = orDefault (c_maxAttendees c) ?L \<and> ?L < k"
      using checkSubscriptionLimits_Inl [OF Inl] unfolding x by simp
    have cm: "c_maxAttendees c = fieldValue (b_maxAttendees b)"
      by (rule readCreateBody_maxAttendees(1) [OF Some])
    show ?thesis
    proof (cases "b_maxAttendees b")
      case Absent
      then have "k = ?L" using lk cm by (simp add: fieldValue_def orDefault_def)
      then show ?thesis using lk by simp
    next
      case Malformed
      then have "k = ?L" using lk cm by (simp add: fieldValue_def orDefault_def)
      then show ?thesis using lk by simp
    next
      case (Present n)
      have "1 \<le> n" using readCreateBody_maxAttendees(2) [OF Some] Present by simp
      then have "orDefault (Some n) ?L = n" by (simp add: orDefault_def)
      then have "k = n" using lk cm Present by (simp add: fieldValue_def)
      then show ?thesis using lk Present by simp
    qed
  qed
qed

lemma created_default_capacity:
  assumes ab: "b_maxAttendees b = Absent"
    and cr: "fst (createEvent en usr b w) = EventCreated ev z"
  shows "ev_maxAttendees ev = maxAttendees (SUBSCRIPTION_LIMITS (subscriptionTier usr))
               \<and> ev \<in> set (w_events (snd (createEvent en usr b w)))"
proof -
  obtain w' where run: "createEvent en usr b w = (EventCreated ev z, w')"
    using cr by (cases "createEvent en usr b w") simp
  obtain c a d where c: "readCreateBody b = Some c"
      and lim: "fst (checkSubscriptionLimits en usr c w) = Inr (a, d)"
      and ev: "ev = (newEventRow usr c a z)\<lparr>ev_id := w_nextId w\<rparr>"
      and evs: "w_events w' = w_events w @ [ev]"
    using createEvent_created [OF run] by blast
  have "c_maxAttendees c = None"
    using readCreateBody_maxAttendees(1) [OF c] ab by (simp add: fieldValue_def)
  then have "a = maxAttendees (SUBSCRIPTION_LIMITS (subscriptionTier usr))"
    using checkSubscriptionLimits_Inr(1) [OF lim] by (simp add: orDefault_def)
  moreover have "ev_maxAttendees ev = a"
    unfolding ev by (simp add: newEventRow_def)
  moreover have "ev \<in> set (w_events w')"
    unfolding evs by simp
  ultimately show ?thesis using run by simp
qed

text \<open>
  Claim C10. When the request gives no \<open>maxAttendees\<close>, the attendee check cannot deny
  and an event that is created is stored with the tier's \<open>maxAttendees\<close>; an
  \<open>AttendeeLimitExceeded\<close> answer is only ever given to a request that names a
  \<open>maxAttendees\<close> strictly above the tier's limit, and it reports that limit and that
  number.
\<close>

theorem attendee_limit_default:
  assumes "lims = SUBSCRIPTION_LIMITS (subscriptionTier usr)"
    and "r = fst (createEvent en usr b w)"
  shows "(b_maxAttendees b = Absent \<longrightarrow> (\<forall>l k. r \<noteq> AttendeeLimitExceeded l k))
       \<and> (b_maxAttendees b = Absent \<longrightarrow>
            (\<forall>ev z. r = EventCreated ev z \<longrightarrow>
               ev_maxAttendees ev = maxAttendees lims
               \<and> ev \<in> set (w_events (snd (createEvent en usr b w)))))
       \<and> (\<forall>l k. r = AttendeeLimitExceeded l k \<longrightarrow>
            (\<exists>n. b_maxAttendees b = Present n \<and> maxAttendees lims < n
                 \<and> l = maxAttendees lims \<and> k = n))"
proof -
  let ?r = "fst (createEvent en usr b w)"
  let ?L = "maxAttendees (SUBSCRIPTION_LIMITS (subscriptionTier usr))"
  have t: "\<forall>l k. ?r = AttendeeLimitExceeded l k \<longrightarrow>
            (\<exists>n. b_maxAttendees b = Present n \<and> ?L < n \<and> l = ?L \<and> k = n)"
    using attendee_denial_origin [of en usr b w] by blast
  have s: "b_maxAttendees b = Absent \<longrightarrow>
            (\<forall>ev z. ?r = EventCreated ev z \<longrightarrow>
               ev_maxAttendees ev = ?L \<and> ev \<in> set (w_events (snd (createEvent en usr b w))))"
    using created_default_capacity [of b en usr w] by blast
  have f: "b_maxAttendees b = Absent \<longrightarrow> (\<forall>l k. ?r \<noteq> AttendeeLimitExceeded l k)"
  proof (intro impI allI notI)
    fix l k
    assume ab: "b_maxAttendees b = Absent" and "?r = AttendeeLimitExceeded l k"
    then obtain n where "b_maxAttendees b = Present n" using t by blast
    then show False using ab by simp
  qed
  show ?thesis unfolding assms by (intro conjI f s t)
qed

theorem attendee_limit_default_witness:
  "b_maxAttendees exBody = Absent
   \<and> (\<exists>ev z. fst (createEvent exEnv standardUser exBody emptyWorld) = EventCreated ev z
        \<and> ev_maxAttendees ev = 250)"
proof -
  have h: "b_maxAttendees exBody = Absent"
    by (simp add: exBody_def)
  have rb: "readCreateBody exBody = Some exFields"
    by (simp add: readCreateBody_def exBody_def exFields_def trim_def isSpace_def orElse_def)
  have "\<exists>ev. fst (createEvent exEnv standardUser exBody emptyWorld) = EventCreated ev None"
    by (simp add: createEvent_def rb checkSubscriptionLimits_def prisma_event_count_def
        checkTimes_def requestZoomMeeting_def prisma_event_create_def logCall_def Let_def
        exEnv_def standardUser_def exFields_def emptyWorld_def eventsOf_def orDefault_def
        durationMinutes_div)
  then obtain ev where cr: "fst (createEvent exEnv standardUser exBody emptyWorld) = EventCreated ev None"
    by blast
  have "ev_maxAttendees ev = maxAttendees (SUBSCRIPTION_LIMITS (subscriptionTier standardUser))"
    using attendee_limit_default [OF refl refl, of exBody exEnv standardUser emptyWorld] h cr
    by blast
  then show ?thesis using h cr by (auto simp add: standardUser_def)
qed

section \<open>The denial of a fourth trial event\<close>

text \<open>
  Claim C8. A validated request of a TRIAL caller who owns three events is answered
  \<open>EventLimitExceeded\<close> with limit 3 and count 3 at the first subscription check, and no
  side effect precedes that answer: the world after it is the world before it, but for
  the trace, to which the handler has added the one read that yields the count of the
  caller's events. Zoom has not been called, and no row has been written.
\<close>

theorem trial_limit_denied_before_writes:
  assumes "readCreateBody b = Some c"
    and "subscriptionTier usr = TRIAL"
    and "length (eventsOf (usr_id usr) w) = 3"
    and "\<not> store_fails en EventCount"
  shows "createEvent en usr b w
         = (EventLimitExceeded 3 3, w\<lparr>w_trace := w_trace w @ [Store EventCount]\<rparr>)"
proof -
  have "fst (checkSubscriptionLimits en usr c w) = Inl (EventLimitExceeded 3 3)"
    using assms(2,3,4)
    by (simp add: checkSubscriptionLimits_def prisma_event_count_def Let_def)
  then have "createEvent en usr b w = (EventLimitExceeded 3 3, snd (checkSubscriptionLimits en usr c w))"
    by (rule createEvent_denied [OF assms(1)])
  then show ?thesis
    using assms(2) by (simp add: checkSubscriptionLimits_world logCall_def)
qed

theorem trial_limit_denied_before_writes_witness:
  "readCreateBody exBody = Some exFields \<and> subscriptionTier trialUser = TRIAL
   \<and> length (eventsOf (usr_id trialUser) trialWorld) = 3 \<and> \<not> store_fails exEnv EventCount
   \<and> createEvent exEnv trialUser exBody trialWorld
       = (EventLimitExceeded 3 3, trialWorld\<lparr>w_trace := w_trace trialWorld @ [Store EventCount]\<rparr>)"
proof -
  have h1: "readCreateBody exBody = Some exFields"
    by (simp add: readCreateBody_def exBody_def exFields_def trim_def isSpace_def orElse_def)
  have h2: "subscriptionTier trialUser = TRIAL"
    by (simp add: trialUser_def)
  have h3: "length (eventsOf (usr_id trialUser) trialWorld) = 3"
    by (simp add: eventsOf_def trialUser_def trialWorld_def exEvent_def)
  have h4: "\<not> store_fails exEnv EventCount"
    by (simp add: exEnv_def)
  show ?thesis
    using trial_limit_denied_before_writes [OF h1 h2 h3 h4] h1 h2 h3 h4 by simp
qed

section \<open>Creation when Zoom fails\<close>

text \<open>What the validated constants of the handler are, in terms of the body.\<close>

lemma readCreateBody_fields:
  assumes "readCreateBody b = Some c"
  shows "(\<exists>t. b_title b = Some t \<and> c_title c = trim t)
       \<and> b_startTime b = Present (c_startTime c)
       \<and> b_endTime b = Present (c_endTime c)
       \<and> c_description c = b_description b
       \<and> c_type c = orElse (b_type b) ''MEETING''
       \<and> c_timezone c = orElse (b_timezone b) ''UTC''
       \<and> c_dashboardTemplate c = orElse (b_dashboardTemplate b) ''CLASSIC''
       \<and> c_settings c = orElse (b_settings b) ''{}''"
  using assms
  by (auto simp add: readCreateBody_def split: option.splits field.splits if_splits)

text \<open>
  Claim C2. When a request has passed the validators, the subscription checks and the
  time checks, asks for a Zoom meeting, and \<open>zoomService.createMeeting\<close> throws, the
  handler still stores the event (provided the insert itself does not throw): the answer
  is 201 with the stored row and a null \<open>zoomMeeting\<close>. The stored row is the event of
  the request (the caller as owner, the trimmed title, the description, the type, the
  start and the end, the time zone, the attendee limit, the template and the settings of
  the body, with the defaults of the handler), its four Zoom columns are null, it is
  added to the table as a new row and no other row changes. The Zoom call was made, and
  its failure is only logged.
\<close>

theorem create_survives_zoom_failure:
  assumes "readCreateBody b = Some c"
    and "fst (checkSubscriptionLimits en usr c w) = Inr (a, d)"
    and "checkTimes en c = None"
    and "c_createZoomMeeting c"
    and "zoom_createMeeting en (meetingDataOf c d) = None"
    and "\<not> store_fails en EventCreate"
    and "w' = snd (createEvent en usr b w)"
  shows "\<exists>ev. fst (createEvent en usr b w) = EventCreated ev None
           \<and> ev_id ev = w_nextId w
           \<and> ev_userId ev = usr_id usr
           \<and> (\<exists>t. b_title b = Some t \<and> ev_title ev = trim t)
           \<and> ev_description ev = b_description b
           \<and> ev_type ev = orElse (b_type b) ''MEETING''
           \<and> b_startTime b = Present (ev_startTime ev)
           \<and> b_endTime b = Present (ev_endTime ev)
           \<and> ev_timezone ev = orElse (b_timezone b) ''UTC''
           \<and> ev_maxAttendees ev
               = orDefault (fieldValue (b_maxAttendees b))
                   (maxAttendees (SUBSCRIPTION_LIMITS (subscriptionTier usr)))
           \<and> ev_dashboardTemplate ev = orElse (b_dashboardTemplate b) ''CLASSIC''
           \<and> ev_settings ev = orElse (b_settings b) ''{}''
           \<and> ev_zoomMeetingId ev = None \<and> ev_zoomMeetingUrl ev = None
           \<and> ev_zoomPassword ev = None \<and> ev_zoomHostKey ev = None
           \<and> w_events w' = w_events w @ [ev]
           \<and> w_attendees w' = w_attendees w
           \<and> w_trace w' = w_trace (snd (checkSubscriptionLimits en usr c w))
               @ [ZoomCreateMeeting (meetingDataOf c d),
                  ConsoleError ''Zoom meeting creation failed:'', Store EventCreate]"
proof -
  obtain w1 where cl: "checkSubscriptionLimits en usr c w = (Inr (a, d), w1)"
    using assms(2) by (cases "checkSubscriptionLimits en usr c w") simp
  have w1: "w_events w1 = w_events w \<and> w_attendees w1 = w_attendees w
            \<and> w_nextId w1 = w_nextId w"
    using checkSubscriptionLimits_world [of en usr c w] cl by (simp add: logCall_def)
  let ?w2 = "logCall (ConsoleError ''Zoom meeting creation failed:'')
               (logCall (ZoomCreateMeeting (meetingDataOf c d)) w1)"
  have rz: "requestZoomMeeting en c d w1 = (None, ?w2)"
    using assms(4,5) by (simp add: requestZoomMeeting_def Let_def)
  let ?ev = "(newEventRow usr c a None)\<lparr>ev_id := w_nextId ?w2\<rparr>"
  have pc: "prisma_event_create en (newEventRow usr c a None) ?w2
            = (Some ?ev, (logCall (Store EventCreate) ?w2)
                 \<lparr>w_events := w_events ?w2 @ [?ev], w_nextId := Suc (w_nextId ?w2)\<rparr>)"
    using assms(6) by (simp add: prisma_event_create_def Let_def logCall_def)
  have run: "createEvent en usr b w
            = (EventCreated ?ev None, (logCall (Store EventCreate) ?w2)
                 \<lparr>w_events := w_events ?w2 @ [?ev], w_nextId := Suc (w_nextId ?w2)\<rparr>)"
    by (simp only: createEvent_def assms(1) cl assms(3) rz pc option.case prod.case sum.case)
  note bf = readCreateBody_fields [OF assms(1)]
  have lim: "a = orDefault (fieldValue (b_maxAttendees b))
                   (maxAttendees (SUBSCRIPTION_LIMITS (subscriptionTier usr)))"
    using checkSubscriptionLimits_Inr(1) [OF assms(2)] readCreateBody_maxAttendees(1) [OF assms(1)]
    by simp
  have c1: "fst (createEvent en usr b w) = EventCreated ?ev None"
    unfolding run by simp
  have c2: "ev_id ?ev = w_nextId w \<and> ev_userId ?ev = usr_id usr"
    using w1 by (simp add: newEventRow_def logCall_def)
  have c3: "\<exists>t. b_title b = Some t \<and> ev_title ?ev = trim t"
    using bf by (simp add: newEventRow_def)
  have c4: "ev_description ?ev = b_description b
           \<and> ev_type ?ev = orElse (b_type b) ''MEETING''
           \<and> b_startTime b = Present (ev_startTime ?ev)
           \<and> b_endTime b = Present (ev_endTime ?ev)
           \<and> ev_timezone ?ev = orElse (b_timezone b) ''UTC''"
    using bf by (simp add: newEventRow_def)
  have c5: "ev_maxAttendees ?ev
               = orDefault (fieldValue (b_maxAttendees b))
                   (maxAttendees (SUBSCRIPTION_LIMITS (subscriptionTier usr)))"
    using lim by (simp add: newEventRow_def)
  have c6: "ev_dashboardTemplate ?ev = orElse (b_dashboardTemplate b) ''CLASSIC''
           \<and> ev_settings ?ev = orElse (b_settings b) ''{}''"
    using bf by (simp add: newEventRow_def)
  have c7: "ev_zoomMeetingId ?ev = None \<and> ev_zoomMeetingUrl ?ev = None
           \<and> ev_zoomPassword ?ev = None \<and> ev_zoomHostKey ?ev = None"
    by (simp add: newEventRow_def)
  have c8: "w_events w' = w_events w @ [?ev] \<and> w_attendees w' = w_attendees w"
    unfolding assms(7) run using w1 by (simp add: logCall_def)
  have c9: "w_trace w' = w_trace (snd (checkSubscriptionLimits en usr c w))
               @ [ZoomCreateMeeting (meetingDataOf c d),
                  ConsoleError ''Zoom meeting creation failed:'', Store EventCreate]"
    unfolding assms(7) run cl by (simp add: logCall_def)
  show ?thesis
    using c1 c2 c3 c4 c5 c6 c7 c8 c9 by blast
qed

theorem create_survives_zoom_failure_witness:
  "readCreateBody exBody = Some exFields
   \<and> fst (checkSubscriptionLimits exEnv standardUser exFields emptyWorld) = Inr (250, 60)
   \<and> checkTimes exEnv exFields = None
   \<and> c_createZoomMeeting exFields
   \<and> zoom_createMeeting exEnv (meetingDataOf exFields 60) = None
   \<and> \<not> store_fails exEnv EventCreate
   \<and> (\<exists>ev. fst (createEvent exEnv standardUser exBody emptyWorld) = EventCreated ev None
         \<and> ev_id ev = 11 \<and> ev_userId ev = 8 \<and> ev_title ev = ''Demo''
         \<and> ev_startTime ev = 60000 \<and> ev_endTime ev = 3660000
         \<and> ev_maxAttendees ev = 250
         \<and> ev_zoomMeetingId ev = None \<and> ev_zoomMeetingUrl ev = None
         \<and> ev_zoomPassword ev = None \<and> ev_zoomHostKey ev = None
         \<and> w_events (snd (createEvent exEnv standardUser exBody emptyWorld)) = [ev])"
proof -
  have h1: "readCreateBody exBody = Some exFields"
    by (simp add: readCreateBody_def exBody_def exFields_def trim_def isSpace_def orElse_def)
  have h2: "fst (checkSubscriptionLimits exEnv standardUser exFields emptyWorld) = Inr (250, 60)"
    by (simp add: checkSubscriptionLimits_def prisma_event_count_def Let_def exEnv_def
        standardUser_def eventsOf_def emptyWorld_def exFields_def orDefault_def durationMinutes_div)
  have h3: "checkTimes exEnv exFields = None"
    by (simp add: checkTimes_def exEnv_def exFields_def)
  have h4: "c_createZoomMeeting exFields"
    by (simp add: exFields_def)
  have h5: "zoom_createMeeting exEnv (meetingDataOf exFields 60) = None"
    by (simp add: exEnv_def)
  have h6: "\<not> store_fails exEnv EventCreate"
    by (simp add: exEnv_def)
  obtain ev where ev: "fst (createEvent exEnv standardUser exBody emptyWorld) = EventCreated ev None"
      and i: "ev_id ev = w_nextId emptyWorld" and u: "ev_userId ev = usr_id standardUser"
      and t: "\<exists>t. b_title exBody = Some t \<and> ev_title ev = trim t"
      and st: "b_startTime exBody = Present (ev_startTime ev)"
      and en: "b_endTime exBody = Present (ev_endTime ev)"
      and m: "ev_maxAttendees ev
               = orDefault (fieldValue (b_maxAttendees exBody))
                   (maxAttendees (SUBSCRIPTION_LIMITS (subscriptionTier standardUser)))"
      and z: "ev_zoomMeetingId ev = None \<and> ev_zoomMeetingUrl ev = None
           \<and> ev_zoomPassword ev = None \<and> ev_zoomHostKey ev = None"
      and evs: "w_events (snd (createEvent exEnv standardUser exBody emptyWorld))
                = w_events emptyWorld @ [ev]"
    using create_survives_zoom_failure [OF h1 h2 h3 h4 h5 h6 refl] by blast
  have c1: "ev_id ev = 11 \<and> ev_userId ev = 8"
    using i u by (simp add: emptyWorld_def standardUser_def)
  have c2: "ev_title ev = ''Demo''"
    using t by (simp add: exBody_def trim_def isSpace_def)
  have c3: "ev_startTime ev = 60000 \<and> ev_endTime ev = 3660000"
    using st en by (simp add: exBody_def)
  have c4: "ev_maxAttendees ev = 250"
    using m by (simp add: exBody_def fieldValue_def orDefault_def standardUser_def)
  have c5: "w_events (snd (createEvent exEnv standardUser exBody emptyWorld)) = [ev]"
    using evs by (simp add: emptyWorld_def)
  show ?thesis
    using h1 h2 h3 h4 h5 h6 ev c1 c2 c3 c4 z c5 by blast
qed

section \<open>Finding rows\<close>

lemma find_conj:
  "find P xs = Some x \<Longrightarrow> Q x \<Longrightarrow> find (\<lambda>e. P e \<and> Q e) xs = Some x"
  by (induction xs) (auto split: if_splits)

lemma find_weaken:
  "find (\<lambda>e. P e \<and> Q e) xs = Some x \<Longrightarrow> find P xs \<noteq> None"
  by (induction xs) (auto split: if_splits)

section \<open>Deleting an event\<close>

text \<open>
  Claim C7. For an event the caller owns (and database calls that do not throw),
  deletion answers \<open>EventDeleted\<close> and no row with the event's id is left, whatever
  \<open>zoomService.deleteMeeting\<close> does. When the event has a \<open>zoomMeetingId\<close>, the Zoom
  deletion is called before the database deletion, and its failure is only logged.
\<close>

theorem delete_removes_local_record:
  assumes "find (\<lambda>e. ev_id e = eid \<and> ev_userId e = usr_id usr) (w_events w) = Some ev"
    and "\<not> store_fails en EventFindUnique"
    and "\<not> store_fails en EventDelete"
    and "w' = snd (deleteEvent en usr eid w)"
    and "mid = orElse (ev_zoomMeetingId ev) []"
  shows "fst (deleteEvent en usr eid w) = EventDeleted
       \<and> w_events w' = filter (\<lambda>e. ev_id e \<noteq> eid) (w_events w)
       \<and> (\<forall>e \<in> set (w_events w'). ev_id e \<noteq> eid)
       \<and> (truthy (ev_zoomMeetingId ev) \<longrightarrow>
            w_trace w' = w_trace w @ [Store EventFindUnique, ZoomDeleteMeeting mid]
              @ (if zoom_deleteMeeting en mid then []
                 else [ConsoleError ''Failed to delete Zoom meeting:''])
              @ [Store EventDelete])
       \<and> (\<not> truthy (ev_zoomMeetingId ev) \<longrightarrow>
            w_trace w' = w_trace w @ [Store EventFindUnique, Store EventDelete])"
proof -
  let ?w1 = "logCall (Store EventFindUnique) w"
  let ?w2 = "syncZoomDelete en ev ?w1"
  have fu: "prisma_event_findUnique en eid (usr_id usr) w = (Some (Some ev), ?w1)"
    using assms(1,2) by (simp add: prisma_event_findUnique_def)
  have ev2: "w_events ?w2 = w_events w"
    by (simp add: syncZoomDelete_def logCall_def Let_def)
  have ex: "find (\<lambda>e. ev_id e = eid) (w_events w) \<noteq> None"
    by (rule find_weaken [OF assms(1)])
  have pd: "prisma_event_delete en eid ?w2
            = (True, (logCall (Store EventDelete) ?w2)
                 \<lparr>w_events := filter (\<lambda>e. ev_id e \<noteq> eid) (w_events w)\<rparr>)"
    using assms(3) ex ev2 by (simp add: prisma_event_delete_def Let_def logCall_def)
  have run: "deleteEvent en usr eid w
            = (EventDeleted, (logCall (Store EventDelete) ?w2)
                 \<lparr>w_events := filter (\<lambda>e. ev_id e \<noteq> eid) (w_events w)\<rparr>)"
    by (simp only: deleteEvent_def fu pd option.case prod.case bool.case if_True)
  have tr: "w_trace ?w2 =
      (if truthy (ev_zoomMeetingId ev)
       then w_trace w @ [Store EventFindUnique, ZoomDeleteMeeting mid]
              @ (if zoom_deleteMeeting en mid then []
                 else [ConsoleError ''Failed to delete Zoom meeting:''])
       else w_trace w @ [Store EventFindUnique])"
    by (simp add: syncZoomDelete_def logCall_def Let_def assms(5))
  show ?thesis
    unfolding assms(4) run using tr by (simp add: logCall_def)
qed

theorem delete_removes_local_record_witness:
  "find (\<lambda>e. ev_id e = 11 \<and> ev_userId e = usr_id trialUser) (w_events oneEventWorld)
     = Some (exEvent 11)
   \<and> \<not> store_fails exEnv EventFindUnique \<and> \<not> store_fails exEnv EventDelete
   \<and> \<not> zoom_deleteMeeting exEnv ''88''
   \<and> fst (deleteEvent exEnv trialUser 11 oneEventWorld) = EventDeleted
   \<and> w_events (snd (deleteEvent exEnv trialUser 11 oneEventWorld)) = []
   \<and> w_trace (snd (deleteEvent exEnv trialUser 11 oneEventWorld))
       = [Store EventFindUnique, ZoomDeleteMeeting ''88'',
          ConsoleError ''Failed to delete Zoom meeting:'', Store EventDelete]"
proof -
  have h1: "find (\<lambda>e. ev_id e = 11 \<and> ev_userId e = usr_id trialUser) (w_events oneEventWorld)
     = Some (exEvent 11)"
    by (simp add: oneEventWorld_def exEvent_def trialUser_def)
  have h2: "\<not> store_fails exEnv EventFindUnique"
    by (simp add: exEnv_def)
  have h3: "\<not> store_fails exEnv EventDelete"
    by (simp add: exEnv_def)
  have z: "\<not> zoom_deleteMeeting exEnv ''88''"
    by (simp add: exEnv_def)
  have m: "orElse (ev_zoomMeetingId (exEvent 11)) [] = ''88''"
    by (simp add: exEvent_def orElse_def)
  have t: "truthy (ev_zoomMeetingId (exEvent 11))"
    by (simp add: exEvent_def truthy_def)
  have w: "w_events oneEventWorld = [exEvent 11] \<and> w_trace oneEventWorld = []"
    by (simp add: oneEventWorld_def)
  have i: "ev_id (exEvent 11) = 11"
    by (simp add: exEvent_def)
  note th = delete_removes_local_record [OF h1 h2 h3 refl refl]
  have c1: "fst (deleteEvent exEnv trialUser 11 oneEventWorld) = EventDeleted"
    by (rule th [THEN conjunct1])
  have "w_events (snd (deleteEvent exEnv trialUser 11 oneEventWorld))
        = filter (\<lambda>e. ev_id e \<noteq> 11) (w_events oneEventWorld)"
    by (rule th [THEN conjunct2, THEN conjunct1])
  then have c2: "w_events (snd (deleteEvent exEnv trialUser 11 oneEventWorld)) = []"
    by (simp add: w i)
  have "w_trace (snd (deleteEvent exEnv trialUser 11 oneEventWorld))
        = w_trace oneEventWorld
          @ [Store EventFindUnique, ZoomDeleteMeeting (orElse (ev_zoomMeetingId (exEvent 11)) [])]
          @ (if zoom_deleteMeeting exEnv (orElse (ev_zoomMeetingId (exEvent 11)) []) then []
             else [ConsoleError ''Failed to delete Zoom meeting:''])
          @ [Store EventDelete]"
    by (rule th [THEN conjunct2, THEN conjunct2, THEN conjunct2, THEN conjunct1, rule_format, OF t])
  then have c3: "w_trace (snd (deleteEvent exEnv trialUser 11 oneEventWorld))
       = [Store EventFindUnique, ZoomDeleteMeeting ''88'',
          ConsoleError ''Failed to delete Zoom meeting:'', Store EventDelete]"
    unfolding m using z by (simp add: w)
  show ?thesis
    by (intro conjI h1 h2 h3 z c1 c2 c3)
qed

section \<open>Updating an event\<close>

lemma syncZoomUpdate_tables:
  "w_events (syncZoomUpdate en ev b w) = w_events w
   \<and> w_attendees (syncZoomUpdate en ev b w) = w_attendees w
   \<and> w_nextId (syncZoomUpdate en ev b w) = w_nextId w"
  by (simp add: syncZoomUpdate_def logCall_def Let_def)

lemma syncZoomUpdate_trace:
  "w_trace (syncZoomUpdate en ev b w) =
     w_trace w @
     (if zoomUpdateWanted ev b
      then ZoomUpdateMeeting (orElse (ev_zoomMeetingId ev) []) (buildZoomUpdateData b)
           # (if zoom_updateMeeting en (orElse (ev_zoomMeetingId ev) []) (buildZoomUpdateData b)
              then [] else [ConsoleError ''Failed to update Zoom meeting:''])
      else [])"
  by (simp add: syncZoomUpdate_def logCall_def Let_def)

text \<open>The run of an update on an event the caller owns, when the database answers.\<close>

lemma updateEvent_run:
  assumes "updateBodyValid b"
    and "find (\<lambda>e. ev_id e = eid) (w_events w) = Some ev"
    and "ev_userId ev = usr_id usr"
    and "\<not> store_fails en EventFindUnique"
    and "\<not> store_fails en EventUpdate"
  shows "updateEvent en usr eid b w =
     (EventUpdated (applyUpdate b ev),
      (logCall (Store EventUpdate) (syncZoomUpdate en ev b (logCall (Store EventFindUnique) w)))
        \<lparr>w_events := map (\<lambda>x. if ev_id x = eid then applyUpdate b x else x) (w_events w)\<rparr>)"
proof -
  let ?w1 = "logCall (Store EventFindUnique) w"
  let ?w2 = "syncZoomUpdate en ev b ?w1"
  have "find (\<lambda>e. ev_id e = eid \<and> ev_userId e = usr_id usr) (w_events w) = Some ev"
    using find_conj [where P = "\<lambda>e. ev_id e = eid" and Q = "\<lambda>e. ev_userId e = usr_id usr",
        OF assms(2)] assms(3) by simp
  then have fu: "prisma_event_findUnique en eid (usr_id usr) w = (Some (Some ev), ?w1)"
    using assms(4) by (simp add: prisma_event_findUnique_def)
  have ev2: "w_events ?w2 = w_events w"
    by (simp add: syncZoomUpdate_tables logCall_def)
  have pu: "prisma_event_update en eid (applyUpdate b) ?w2
            = (Some (applyUpdate b ev), (logCall (Store EventUpdate) ?w2)
                \<lparr>w_events := map (\<lambda>x. if ev_id x = eid then applyUpdate b x else x) (w_events w)\<rparr>)"
    using assms(5,2) ev2 by (simp add: prisma_event_update_def Let_def logCall_def)
  show ?thesis
    using assms(1) by (simp only: updateEvent_def fu pu option.case prod.case if_False not_True_eq_False simp_thms)
qed

lemma updateEvent_attendees:
  "w_attendees (snd (updateEvent en usr eid b w)) = w_attendees w"
  by (simp add: updateEvent_def prisma_event_findUnique_def prisma_event_update_def
        syncZoomUpdate_tables logCall_def Let_def split: option.splits)

text \<open>
  What the handler does on an update of an event the caller owns (valid body, database
  calls that do not throw): which call to Zoom it makes, with which object, and that the
  row is updated with the body and returned whether that call succeeds or throws.
\<close>

lemma updateEvent_zoom_trace:
  assumes "updateBodyValid b"
    and "find (\<lambda>e. ev_id e = eid) (w_events w) = Some ev"
    and "ev_userId ev = usr_id usr"
    and "\<not> store_fails en EventFindUnique"
    and "\<not> store_fails en EventUpdate"
    and "w' = snd (updateEvent en usr eid b w)"
    and "mid = orElse (ev_zoomMeetingId ev) []"
    and "payload =
           \<lparr>zu_topic = map_option trim (u_title b),
            zu_agenda = (if u_description b = Some [] then None else u_description b),
            zu_start_time = fieldValue (u_startTime b),
            zu_duration =
              (if u_startTime b = Absent \<or> u_endTime b = Absent then None
               else Some (durationMinutes (orElse (fieldValue (u_startTime b)) 0)
                                          (orElse (fieldValue (u_endTime b)) 0)))\<rparr>"
    and "attempted =
           (ev_zoomMeetingId ev \<noteq> None \<and> ev_zoomMeetingId ev \<noteq> Some []
            \<and> (u_title b \<noteq> None \<or> u_startTime b \<noteq> Absent \<or> u_endTime b \<noteq> Absent
                \<or> (u_description b \<noteq> None \<and> u_description b \<noteq> Some [])))"
  shows "fst (updateEvent en usr eid b w) = EventUpdated (applyUpdate b ev)
       \<and> w_events w' = map (\<lambda>x. if ev_id x = eid then applyUpdate b x else x) (w_events w)
       \<and> (attempted \<longrightarrow>
            w_trace w' = w_trace w @ [Store EventFindUnique, ZoomUpdateMeeting mid payload]
              @ (if zoom_updateMeeting en mid payload then []
                 else [ConsoleError ''Failed to update Zoom meeting:''])
              @ [Store EventUpdate])
       \<and> (\<not> attempted \<longrightarrow>
            w_trace w' = w_trace w @ [Store EventFindUnique, Store EventUpdate])"
proof -
  have st: "u_startTime b \<noteq> Malformed" and en: "u_endTime b \<noteq> Malformed"
    and ti: "\<And>t. u_title b = Some t \<Longrightarrow> trim t \<noteq> []"
    using assms(1) by (auto simp add: updateBodyValid_def)
  have wanted: "zoomUpdateWanted ev b = attempted"
  proof -
    have a: "truthy (updateTitle b) = (u_title b \<noteq> None)"
      using ti by (cases "u_title b") (simp_all add: truthy_def updateTitle_def)
    have b: "(fieldValue (u_startTime b) \<noteq> None) = (u_startTime b \<noteq> Absent)"
      using st by (cases "u_startTime b") (simp_all add: fieldValue_def)
    have c: "(fieldValue (u_endTime b) \<noteq> None) = (u_endTime b \<noteq> Absent)"
      using en by (cases "u_endTime b") (simp_all add: fieldValue_def)
    have d: "truthy (u_description b) = (u_description b \<noteq> None \<and> u_description b \<noteq> Some [])"
      by (cases "u_description b") (simp_all add: truthy_def)
    have e: "truthy (ev_zoomMeetingId ev)
             = (ev_zoomMeetingId ev \<noteq> None \<and> ev_zoomMeetingId ev \<noteq> Some [])"
      by (cases "ev_zoomMeetingId ev") (simp_all add: truthy_def)
    show ?thesis unfolding zoomUpdateWanted_def a b c d e assms(9) by blast
  qed
  have built: "buildZoomUpdateData b = payload"
  proof -
    have a: "(if truthy (updateTitle b) then updateTitle b else None) = map_option trim (u_title b)"
      using ti by (cases "u_title b") (simp_all add: truthy_def updateTitle_def)
    have b: "(if truthy (u_description b) then u_description b else None)
             = (if u_description b = Some [] then None else u_description b)"
      by (cases "u_description b") (simp_all add: truthy_def)
    have c: "(case fieldValue (u_endTime b) of None \<Rightarrow> None
              | Some e \<Rightarrow> (case fieldValue (u_startTime b) of None \<Rightarrow> None
                           | Some s \<Rightarrow> Some (durationMinutes s e)))
             = (if u_startTime b = Absent \<or> u_endTime b = Absent then None
               else Some (durationMinutes (orElse (fieldValue (u_startTime b)) 0)
                                          (orElse (fieldValue (u_endTime b)) 0)))"
      using st en by (cases "u_startTime b"; cases "u_endTime b")
                     (simp_all add: fieldValue_def orElse_def)
    show ?thesis unfolding buildZoomUpdateData_def a b c assms(8) by (rule refl)
  qed
  have run: "updateEvent en usr eid b w =
     (EventUpdated (applyUpdate b ev),
      (logCall (Store EventUpdate) (syncZoomUpdate en ev b (logCall (Store EventFindUnique) w)))
        \<lparr>w_events := map (\<lambda>x. if ev_id x = eid then applyUpdate b x else x) (w_events w)\<rparr>)"
    by (rule updateEvent_run [OF assms(1-5)])
  have tr: "w_trace w' = w_trace w @ [Store EventFindUnique]
      @ (if attempted
         then ZoomUpdateMeeting mid payload
           # (if zoom_updateMeeting en mid payload
              then [] else [ConsoleError ''Failed to update Zoom meeting:''])
         else [])
      @ [Store EventUpdate]"
    unfolding assms(6) run
    by (simp add: logCall_def syncZoomUpdate_trace wanted built assms(7) del: append_assoc)
  have c1: "fst (updateEvent en usr eid b w) = EventUpdated (applyUpdate b ev)"
    unfolding run by simp
  have c2: "w_events w' = map (\<lambda>x. if ev_id x = eid then applyUpdate b x else x) (w_events w)"
    unfolding assms(6) run by simp
  have c3: "attempted \<longrightarrow>
            w_trace w' = w_trace w @ [Store EventFindUnique, ZoomUpdateMeeting mid payload]
              @ (if zoom_updateMeeting en mid payload then []
                 else [ConsoleError ''Failed to update Zoom meeting:''])
              @ [Store EventUpdate]"
    using tr by simp
  have c4: "\<not> attempted \<longrightarrow>
            w_trace w' = w_trace w @ [Store EventFindUnique, Store EventUpdate]"
    using tr by simp
  show ?thesis by (intro conjI c1 c2 c3 c4)
qed

lemma oneEventWorld_find:
  "find (\<lambda>e. ev_id e = 11) (w_events oneEventWorld) = Some (exEvent 11)"
  by (simp add: oneEventWorld_def exEvent_def)

lemma exEvent_owner: "ev_userId (exEvent i) = usr_id trialUser"
  by (simp add: exEvent_def trialUser_def)

lemma exEnv_store: "\<not> store_fails exEnv p"
  by (simp add: exEnv_def)

text \<open>
  Claim C6 fails on two updates of an event linked to Zoom meeting 88 (here with a
  failing Zoom call, which is logged and does not block the update of the row). An
  update that moves only the end, from 3660000 to 7260000, calls Zoom, since the end is
  among the fields that trigger the call, but the object sent carries no key at all: the
  duration is recomputed only when the body names both times, so the changed schedule
  does not reach the meeting. An update that empties the description changes the row
  without any call to Zoom, since the empty string is falsy.
\<close>

theorem update_misses_changed_fields:
  "w_trace (snd (updateEvent exEnv trialUser 11 endOnlyUpdate oneEventWorld))
     = [Store EventFindUnique,
        ZoomUpdateMeeting ''88''
          \<lparr>zu_topic = None, zu_agenda = None, zu_start_time = None, zu_duration = None\<rparr>,
        ConsoleError ''Failed to update Zoom meeting:'', Store EventUpdate]
   \<and> map ev_endTime (w_events oneEventWorld) = [3660000]
   \<and> map ev_endTime (w_events (snd (updateEvent exEnv trialUser 11 endOnlyUpdate oneEventWorld)))
       = [7260000]
   \<and> w_trace (snd (updateEvent exEnv trialUser 11 clearDescription oneEventWorld))
       = [Store EventFindUnique, Store EventUpdate]
   \<and> map ev_description (w_events oneEventWorld) = [None]
   \<and> map ev_description
        (w_events (snd (updateEvent exEnv trialUser 11 clearDescription oneEventWorld)))
       = [Some []]"
proof -
  have v1: "updateBodyValid endOnlyUpdate"
    by (simp add: updateBodyValid_def endOnlyUpdate_def noUpdate_def)
  have v2: "updateBodyValid clearDescription"
    by (simp add: updateBodyValid_def clearDescription_def noUpdate_def)
  note r1 = updateEvent_run [OF v1 oneEventWorld_find exEvent_owner exEnv_store exEnv_store]
  note r2 = updateEvent_run [OF v2 oneEventWorld_find exEvent_owner exEnv_store exEnv_store]
  have w1: "zoomUpdateWanted (exEvent 11) endOnlyUpdate"
    by (simp add: zoomUpdateWanted_def exEvent_def endOnlyUpdate_def noUpdate_def truthy_def
        fieldValue_def updateTitle_def)
  have b1: "buildZoomUpdateData endOnlyUpdate
            = \<lparr>zu_topic = None, zu_agenda = None, zu_start_time = None, zu_duration = None\<rparr>"
    by (simp add: buildZoomUpdateData_def endOnlyUpdate_def noUpdate_def truthy_def
        fieldValue_def updateTitle_def)
  have w2: "\<not> zoomUpdateWanted (exEvent 11) clearDescription"
    by (simp add: zoomUpdateWanted_def exEvent_def clearDescription_def noUpdate_def truthy_def
        fieldValue_def updateTitle_def)
  have m: "orElse (ev_zoomMeetingId (exEvent 11)) [] = ''88''"
    by (simp add: exEvent_def orElse_def)
  have c1: "w_trace (snd (updateEvent exEnv trialUser 11 endOnlyUpdate oneEventWorld))
     = [Store EventFindUnique,
        ZoomUpdateMeeting ''88''
          \<lparr>zu_topic = None, zu_agenda = None, zu_start_time = None, zu_duration = None\<rparr>,
        ConsoleError ''Failed to update Zoom meeting:'', Store EventUpdate]"
    unfolding r1 by (simp add: logCall_def syncZoomUpdate_trace w1 b1 m exEnv_def oneEventWorld_def)
  have c2: "map ev_endTime (w_events oneEventWorld) = [3660000]"
    by (simp add: oneEventWorld_def exEvent_def)
  have c3: "map ev_endTime
      (w_events (snd (updateEvent exEnv trialUser 11 endOnlyUpdate oneEventWorld))) = [7260000]"
    unfolding r1
    by (simp add: oneEventWorld_def exEvent_def applyUpdate_def endOnlyUpdate_def noUpdate_def
        orElse_def fieldValue_def)
  have c4: "w_trace (snd (updateEvent exEnv trialUser 11 clearDescription oneEventWorld))
       = [Store EventFindUnique, Store EventUpdate]"
    unfolding r2 by (simp add: logCall_def syncZoomUpdate_trace w2 oneEventWorld_def)
  have c5: "map ev_description (w_events oneEventWorld) = [None]"
    by (simp add: oneEventWorld_def exEvent_def)
  have c6: "map ev_description
        (w_events (snd (updateEvent exEnv trialUser 11 clearDescription oneEventWorld)))
       = [Some []]"
    unfolding r2
    by (simp add: oneEventWorld_def exEvent_def applyUpdate_def clearDescription_def noUpdate_def)
  show ?thesis by (intro conjI c1 c2 c3 c4 c5 c6)
qed

section \<open>The order of start and end\<close>

text \<open>Creation stores an event only when its start is after the clock and its end after
  its start, and it leaves the rows already stored as they are.\<close>

lemma created_event_times:
  assumes "createEvent en usr b w = (EventCreated ev z, w')"
  shows "clock en < ev_startTime ev \<and> ev_startTime ev < ev_endTime ev
         \<and> w_events w' = w_events w @ [ev]"
proof -
  obtain c a where ct: "checkTimes en c = None"
      and ev: "ev = (newEventRow usr c a z)\<lparr>ev_id := w_nextId w\<rparr>"
      and evs: "w_events w' = w_events w @ [ev]"
    using createEvent_created [OF assms] by blast
  have "clock en < c_startTime c \<and> c_startTime c < c_endTime c"
    using ct by (simp add: checkTimes_def split: if_splits)
  then show ?thesis using evs unfolding ev by (simp add: newEventRow_def)
qed

lemma createEvent_not_created:
  assumes "\<forall>ev z. fst (createEvent en usr b w) \<noteq> EventCreated ev z"
  shows "w_events (snd (createEvent en usr b w)) = w_events w"
proof (cases "readCreateBody b")
  case None
  then show ?thesis by (simp add: createEvent_def)
next
  case (Some c)
  obtain x w1 where cl: "checkSubscriptionLimits en usr c w = (x, w1)"
    by (cases "checkSubscriptionLimits en usr c w")
  have w1: "w_events w1 = w_events w"
    using checkSubscriptionLimits_world [of en usr c w] cl by (simp add: logCall_def)
  obtain z w2 where rz: "requestZoomMeeting en c (snd (projr x)) w1 = (z, w2)"
    by (cases "requestZoomMeeting en c (snd (projr x)) w1")
  have w2: "w_events w2 = w_events w1"
    using rz by (auto simp add: requestZoomMeeting_def logCall_def Let_def split: if_splits option.splits)
  show ?thesis
    using assms Some cl w1 rz w2
    by (auto simp add: createEvent_def prisma_event_create_def logCall_def Let_def
        split: sum.splits option.splits prod.splits if_splits)
qed

text \<open>
  Claim C9 fails on the update path. The handler of \<open>PUT /api/events/:id\<close> checks the
  format of the times only: an update that names an end before the stored start is
  written as it is, and the stored event then ends before it starts.
\<close>

theorem update_stores_end_before_start:
  "ev_startTime (exEvent 11) < ev_endTime (exEvent 11)
   \<and> updateBodyValid earlyEndUpdate
   \<and> fst (updateEvent exEnv trialUser 11 earlyEndUpdate oneEventWorld)
       = EventUpdated ((exEvent 11)\<lparr>ev_endTime := 30000\<rparr>)
   \<and> w_events (snd (updateEvent exEnv trialUser 11 earlyEndUpdate oneEventWorld))
       = [(exEvent 11)\<lparr>ev_endTime := 30000\<rparr>]
   \<and> ev_endTime ((exEvent 11)\<lparr>ev_endTime := 30000\<rparr>)
       \<le> ev_startTime ((exEvent 11)\<lparr>ev_endTime := 30000\<rparr>)"
proof -
  have v: "updateBodyValid earlyEndUpdate"
    by (simp add: updateBodyValid_def earlyEndUpdate_def noUpdate_def)
  note r = updateEvent_run [OF v oneEventWorld_find exEvent_owner exEnv_store exEnv_store]
  have a: "applyUpdate earlyEndUpdate (exEvent 11) = (exEvent 11)\<lparr>ev_endTime := 30000\<rparr>"
    by (simp add: applyUpdate_def earlyEndUpdate_def noUpdate_def exEvent_def orElse_def
        fieldValue_def updateTitle_def)
  have c0: "ev_startTime (exEvent 11) < ev_endTime (exEvent 11)"
    by (simp add: exEvent_def)
  have c1: "fst (updateEvent exEnv trialUser 11 earlyEndUpdate oneEventWorld)
       = EventUpdated ((exEvent 11)\<lparr>ev_endTime := 30000\<rparr>)"
    unfolding r by (simp add: a)
  have i: "ev_id (exEvent 11) = 11"
    by (simp add: exEvent_def)
  have c2: "w_events (snd (updateEvent exEnv trialUser 11 earlyEndUpdate oneEventWorld))
       = [(exEvent 11)\<lparr>ev_endTime := 30000\<rparr>]"
    unfolding r by (simp add: oneEventWorld_def i a)
  have c3: "ev_endTime ((exEvent 11)\<lparr>ev_endTime := 30000\<rparr>)
       \<le> ev_startTime ((exEvent 11)\<lparr>ev_endTime := 30000\<rparr>)"
    by (simp add: exEvent_def)
  show ?thesis by (intro conjI c0 v c1 c2 c3)
qed

section \<open>Registering an attendee\<close>

lemma find_map_same_id:
  assumes "find (\<lambda>e. ev_id e = eid) xs = Some ev" and "\<And>x. ev_id (f x) = ev_id x"
  shows "find (\<lambda>e. ev_id e = eid) (map (\<lambda>x. if ev_id x = eid then f x else x) xs) = Some (f ev)"
  using assms(1) by (induction xs) (auto simp add: assms(2) split: if_splits)

lemma findWithCount_found:
  assumes "find (\<lambda>e. ev_id e = eid) (w_events w) = Some ev"
    and "ev_userId ev = usr_id usr"
    and "\<not> store_fails en EventFindUnique"
  shows "prisma_event_findWithCount en eid (usr_id usr) w
         = (Some (Some (ev, int (length (attendeesOf eid w)))), logCall (Store EventFindUnique) w)"
proof -
  have "find (\<lambda>e. ev_id e = eid \<and> ev_userId e = usr_id usr) (w_events w) = Some ev"
    using find_conj [where P = "\<lambda>e. ev_id e = eid" and Q = "\<lambda>e. ev_userId e = usr_id usr",
        OF assms(1)] assms(2) by simp
  then show ?thesis
    using assms(3) by (simp add: prisma_event_findWithCount_def prisma_event_findUnique_def)
qed

text \<open>The three runs of a registration on an event the caller owns, when the database
  answers: the event is full, the e-mail is registered already, or the row is added.\<close>

lemma register_full:
  assumes "readRegisterBody b = Some g"
    and "find (\<lambda>e. ev_id e = eid) (w_events w) = Some ev"
    and "ev_userId ev = usr_id usr"
    and "\<not> store_fails en EventFindUnique"
    and "ev_maxAttendees ev \<le> int (length (attendeesOf eid w))"
  shows "registerAttendee en usr eid b w
         = (EventFull (ev_maxAttendees ev) (int (length (attendeesOf eid w))),
            logCall (Store EventFindUnique) w)"
  using assms(5)
  by (simp add: registerAttendee_def assms(1) findWithCount_found [OF assms(2,3,4)])

lemma register_duplicate:
  assumes "readRegisterBody b = Some g"
    and "find (\<lambda>e. ev_id e = eid) (w_events w) = Some ev"
    and "ev_userId ev = usr_id usr"
    and "\<not> store_fails en EventFindUnique"
    and "\<not> store_fails en AttendeeFindUnique"
    and "int (length (attendeesOf eid w)) < ev_maxAttendees ev"
    and "find (\<lambda>a. at_email a = g_email g \<and> at_eventId a = eid) (w_attendees w) = Some x"
  shows "registerAttendee en usr eid b w
         = (AlreadyRegistered,
            logCall (Store AttendeeFindUnique) (logCall (Store EventFindUnique) w))"
  using assms(5,6,7)
  by (simp add: registerAttendee_def assms(1) findWithCount_found [OF assms(2,3,4)]
      prisma_attendee_findUnique_def logCall_def)

lemma register_ok:
  assumes "readRegisterBody b = Some g"
    and "find (\<lambda>e. ev_id e = eid) (w_events w) = Some ev"
    and "ev_userId ev = usr_id usr"
    and "\<forall>p. \<not> store_fails en p"
    and "int (length (attendeesOf eid w)) < ev_maxAttendees ev"
    and "find (\<lambda>a. at_email a = g_email g \<and> at_eventId a = eid) (w_attendees w) = None"
  shows "registerAttendee en usr eid b w
         = (AttendeeRegistered (newAttendeeRow g eid ev),
            w\<lparr>w_events := map (\<lambda>x. if ev_id x = eid then incrementAttendees x else x) (w_events w),
              w_attendees := w_attendees w @ [newAttendeeRow g eid ev],
              w_trace := w_trace w @ [Store EventFindUnique, Store AttendeeFindUnique,
                                      Store AttendeeCreate, Store EventUpdate]\<rparr>)"
proof -
  let ?w1 = "logCall (Store EventFindUnique) w"
  let ?w2 = "logCall (Store AttendeeFindUnique) ?w1"
  let ?row = "newAttendeeRow g eid ev"
  let ?w3 = "(logCall (Store AttendeeCreate) ?w2)\<lparr>w_attendees := w_attendees w @ [?row]\<rparr>"
  have sf: "\<And>p. \<not> store_fails en p" using assms(4) by simp
  have f1: "prisma_event_findWithCount en eid (usr_id usr) w
         = (Some (Some (ev, int (length (attendeesOf eid w)))), ?w1)"
    by (rule findWithCount_found [OF assms(2,3) sf])
  have f2: "prisma_attendee_findUnique en (g_email g) eid ?w1 = (Some None, ?w2)"
    using assms(6) by (simp add: prisma_attendee_findUnique_def sf logCall_def)
  have f3: "prisma_attendee_create en ?row ?w2 = (Some ?row, ?w3)"
    using assms(6) by (simp add: prisma_attendee_create_def sf logCall_def Let_def newAttendeeRow_def)
  have f4: "prisma_event_update en eid incrementAttendees ?w3
         = (Some (incrementAttendees ev),
            (logCall (Store EventUpdate) ?w3)
              \<lparr>w_events := map (\<lambda>x. if ev_id x = eid then incrementAttendees x else x) (w_events w)\<rparr>)"
    using assms(2) by (simp add: prisma_event_update_def sf logCall_def Let_def)
  have "registerAttendee en usr eid b w
        = (AttendeeRegistered ?row,
           (logCall (Store EventUpdate) ?w3)
              \<lparr>w_events := map (\<lambda>x. if ev_id x = eid then incrementAttendees x else x) (w_events w)\<rparr>)"
    using assms(5) by (simp add: registerAttendee_def assms(1) f1 f2 f3 f4)
  then show ?thesis by (simp add: logCall_def)
qed

lemma registerAttendee_tables_on_denial:
  assumes "fst (registerAttendee en usr eid b w) = EventFull m k
           \<or> fst (registerAttendee en usr eid b w) = AlreadyRegistered"
  shows "w_events (snd (registerAttendee en usr eid b w)) = w_events w
       \<and> w_attendees (snd (registerAttendee en usr eid b w)) = w_attendees w"
  using assms
  by (auto simp add: registerAttendee_def prisma_event_findWithCount_def
      prisma_event_findUnique_def prisma_attendee_findUnique_def prisma_attendee_create_def
      prisma_event_update_def logCall_def Let_def
      split: option.splits if_splits prod.splits)

text \<open>
  Claim C3, as amended. On an event the caller owns (valid body, database calls that do
  not throw), registration answers \<open>EventFull\<close> exactly when the number of attendee rows
  stored for the event has reached \<open>maxAttendees\<close>; otherwise it answers
  \<open>AlreadyRegistered\<close> exactly when a row with the same e-mail and event exists;
  otherwise it adds the row, which carries the join URL the event has at that moment, and
  adds one to the event's \<open>currentAttendees\<close>. On either denial no row is added and the
  counter is unchanged. A later update of the event leaves the attendee rows, and so the
  URL they carry, as they are.
\<close>

theorem register_attendee_outcomes:
  assumes "readRegisterBody b = Some g"
    and "find (\<lambda>e. ev_id e = eid) (w_events w) = Some ev"
    and "ev_userId ev = usr_id usr"
    and "\<forall>p. \<not> store_fails en p"
    and "n = int (length (attendeesOf eid w))"
    and "dup = (\<exists>a \<in> set (w_attendees w). at_email a = g_email g \<and> at_eventId a = eid)"
    and "r = fst (registerAttendee en usr eid b w)"
    and "w' = snd (registerAttendee en usr eid b w)"
    and "row = newAttendeeRow g eid ev"
  shows "((\<exists>m k. r = EventFull m k) = (ev_maxAttendees ev \<le> n))
       \<and> (ev_maxAttendees ev \<le> n \<longrightarrow> r = EventFull (ev_maxAttendees ev) n)
       \<and> ((r = AlreadyRegistered) = (n < ev_maxAttendees ev \<and> dup))
       \<and> (ev_maxAttendees ev \<le> n \<or> dup \<longrightarrow>
            w_events w' = w_events w \<and> w_attendees w' = w_attendees w)
       \<and> ((\<exists>a. r = AttendeeRegistered a) = (n < ev_maxAttendees ev \<and> \<not> dup))
       \<and> (n < ev_maxAttendees ev \<and> \<not> dup \<longrightarrow>
            r = AttendeeRegistered row
            \<and> at_joinUrl row = ev_zoomMeetingUrl ev
            \<and> at_email row = g_email g \<and> at_eventId row = eid
            \<and> w_attendees w' = w_attendees w @ [row]
            \<and> w_events w' =
                map (\<lambda>x. if ev_id x = eid
                          then x\<lparr>ev_currentAttendees := ev_currentAttendees x + 1\<rparr> else x)
                    (w_events w))
       \<and> (\<forall>en2 usr2 eid2 ub.
            w_attendees (snd (updateEvent en2 usr2 eid2 ub w')) = w_attendees w')"
proof -
  let ?P = "\<lambda>a. at_email a = g_email g \<and> at_eventId a = eid"
  have sf: "\<And>p. \<not> store_fails en p" using assms(4) by simp
  have dupfind: "dup = (find ?P (w_attendees w) \<noteq> None)"
    unfolding assms(6) by (auto simp add: find_None_iff)
  have last: "\<forall>en2 usr2 eid2 ub.
            w_attendees (snd (updateEvent en2 usr2 eid2 ub w')) = w_attendees w'"
    by (simp add: updateEvent_attendees)
  consider (full) "ev_maxAttendees ev \<le> n"
    | (dup) "n < ev_maxAttendees ev" "dup"
    | (ok) "n < ev_maxAttendees ev" "\<not> dup"
    by linarith
  then have main: "((\<exists>m k. r = EventFull m k) = (ev_maxAttendees ev \<le> n))
       \<and> (ev_maxAttendees ev \<le> n \<longrightarrow> r = EventFull (ev_maxAttendees ev) n)
       \<and> ((r = AlreadyRegistered) = (n < ev_maxAttendees ev \<and> dup))
       \<and> (ev_maxAttendees ev \<le> n \<or> dup \<longrightarrow>
            w_events w' = w_events w \<and> w_attendees w' = w_attendees w)
       \<and> ((\<exists>a. r = AttendeeRegistered a) = (n < ev_maxAttendees ev \<and> \<not> dup))
       \<and> (n < ev_maxAttendees ev \<and> \<not> dup \<longrightarrow>
            r = AttendeeRegistered row
            \<and> at_joinUrl row = ev_zoomMeetingUrl ev
            \<and> at_email row = g_email g \<and> at_eventId row = eid
            \<and> w_attendees w' = w_attendees w @ [row]
            \<and> w_events w' =
                map (\<lambda>x. if ev_id x = eid
                          then x\<lparr>ev_currentAttendees := ev_currentAttendees x + 1\<rparr> else x)
                    (w_events w))"
  proof cases
    case full
    have run: "registerAttendee en usr eid b w
         = (EventFull (ev_maxAttendees ev) n, logCall (Store EventFindUnique) w)"
      using register_full [OF assms(1,2,3) sf] full unfolding assms(5) by simp
    have "r = EventFull (ev_maxAttendees ev) n"
      unfolding assms(7) run by simp
    moreover have "w_events w' = w_events w \<and> w_attendees w' = w_attendees w"
      unfolding assms(8) run by (simp add: logCall_def)
    ultimately show ?thesis using full by simp
  next
    case dup
    obtain x where x: "find ?P (w_attendees w) = Some x"
      using dup(2) dupfind by auto
    have run: "registerAttendee en usr eid b w
         = (AlreadyRegistered,
            logCall (Store AttendeeFindUnique) (logCall (Store EventFindUnique) w))"
      using register_duplicate [OF assms(1,2,3) sf sf _ x] dup(1) unfolding assms(5) by simp
    have "r = AlreadyRegistered"
      unfolding assms(7) run by simp
    moreover have "w_events w' = w_events w \<and> w_attendees w' = w_attendees w"
      unfolding assms(8) run by (simp add: logCall_def)
    ultimately show ?thesis using dup by simp
  next
    case ok
    have nf: "find ?P (w_attendees w) = None"
      using ok(2) dupfind by simp
    have run: "registerAttendee en usr eid b w
         = (AttendeeRegistered row,
            w\<lparr>w_events := map (\<lambda>x. if ev_id x = eid then incrementAttendees x else x) (w_events w),
              w_attendees := w_attendees w @ [row],
              w_trace := w_trace w @ [Store EventFindUnique, Store AttendeeFindUnique,
                                      Store AttendeeCreate, Store EventUpdate]\<rparr>)"
      using register_ok [OF assms(1,2,3,4) _ nf] ok(1) unfolding assms(5) assms(9) by simp
    have a: "r = AttendeeRegistered row"
      unfolding assms(7) run by simp
    have b: "w_attendees w' = w_attendees w @ [row]"
      unfolding assms(8) run by simp
    have c: "w_events w' =
                map (\<lambda>x. if ev_id x = eid
                          then x\<lparr>ev_currentAttendees := ev_currentAttendees x + 1\<rparr> else x)
                    (w_events w)"
      unfolding assms(8) run by (simp add: incrementAttendees_def)
    have d: "at_joinUrl row = ev_zoomMeetingUrl ev \<and> at_email row = g_email g \<and> at_eventId row = eid"
      unfolding assms(9) by (simp add: newAttendeeRow_def)
    show ?thesis using a b c d ok by simp
  qed
  show ?thesis using main last by blast
qed

theorem register_attendee_outcomes_witness:
  "readRegisterBody bodyA = Some regA
   \<and> find (\<lambda>e. ev_id e = 11) (w_events oneEventWorld) = Some (exEvent 11)
   \<and> ev_userId (exEvent 11) = usr_id trialUser
   \<and> (\<forall>p. \<not> store_fails exEnv p)
   \<and> fst (registerAttendee exEnv trialUser 11 bodyA oneEventWorld)
       = AttendeeRegistered (newAttendeeRow regA 11 (exEvent 11))
   \<and> at_joinUrl (newAttendeeRow regA 11 (exEvent 11)) = Some ''https://zoom.us/j/88''"
proof -
  have h1: "readRegisterBody bodyA = Some regA"
    by (simp add: readRegisterBody_def bodyA_def regA_def trim_def isSpace_def)
  have h4: "\<forall>p. \<not> store_fails exEnv p"
    by (simp add: exEnv_def)
  note th = register_attendee_outcomes [OF h1 oneEventWorld_find exEvent_owner h4
      refl refl refl refl refl]
  have pre: "int (length (attendeesOf 11 oneEventWorld)) < ev_maxAttendees (exEvent 11)
      \<and> \<not> (\<exists>a \<in> set (w_attendees oneEventWorld). at_email a = g_email regA \<and> at_eventId a = 11)"
    by (simp add: attendeesOf_def oneEventWorld_def exEvent_def)
  note ok = th [THEN conjunct2, THEN conjunct2, THEN conjunct2, THEN conjunct2, THEN conjunct2,
      THEN conjunct1, rule_format, OF pre]
  have c1: "fst (registerAttendee exEnv trialUser 11 bodyA oneEventWorld)
       = AttendeeRegistered (newAttendeeRow regA 11 (exEvent 11))"
    by (rule ok [THEN conjunct1])
  have c2: "at_joinUrl (newAttendeeRow regA 11 (exEvent 11)) = Some ''https://zoom.us/j/88''"
    by (simp add: newAttendeeRow_def exEvent_def)
  show ?thesis
    by (intro conjI h1 oneEventWorld_find exEvent_owner h4 c1 c2)
qed

text \<open>
  The claim as stated fails: the handler compares the number of attendee rows, not the
  column \<open>currentAttendees\<close>. On an event whose counter equals \<open>maxAttendees\<close> while no
  attendee row is stored, registration succeeds and pushes the counter above
  \<open>maxAttendees\<close>.
\<close>

theorem register_counter_ignored_counterexample:
  "map ev_currentAttendees (w_events counterFullWorld) = [1]
   \<and> map ev_maxAttendees (w_events counterFullWorld) = [1]
   \<and> fst (registerAttendee exEnv trialUser 11 bodyA counterFullWorld)
       = AttendeeRegistered (newAttendeeRow regA 11 ((exEvent 11)\<lparr>ev_currentAttendees := 1\<rparr>))
   \<and> map ev_currentAttendees
        (w_events (snd (registerAttendee exEnv trialUser 11 bodyA counterFullWorld))) = [2]"
proof -
  let ?ev = "(exEvent 11)\<lparr>ev_currentAttendees := 1\<rparr>"
  have h1: "readRegisterBody bodyA = Some regA"
    by (simp add: readRegisterBody_def bodyA_def regA_def trim_def isSpace_def)
  have h2: "find (\<lambda>e. ev_id e = 11) (w_events counterFullWorld) = Some ?ev"
    by (simp add: counterFullWorld_def exEvent_def)
  have h3: "ev_userId ?ev = usr_id trialUser"
    by (simp add: exEvent_def trialUser_def)
  have h4: "\<forall>p. \<not> store_fails exEnv p"
    by (simp add: exEnv_def)
  have h5: "int (length (attendeesOf 11 counterFullWorld)) < ev_maxAttendees ?ev"
    by (simp add: attendeesOf_def counterFullWorld_def exEvent_def)
  have h6: "find (\<lambda>a. at_email a = g_email regA \<and> at_eventId a = 11)
              (w_attendees counterFullWorld) = None"
    by (simp add: counterFullWorld_def)
  note run = register_ok [OF h1 h2 h3 h4 h5 h6]
  have c1: "map ev_currentAttendees (w_events counterFullWorld) = [1]"
    by (simp add: counterFullWorld_def)
  have c2: "map ev_maxAttendees (w_events counterFullWorld) = [1]"
    by (simp add: counterFullWorld_def exEvent_def)
  have c3: "fst (registerAttendee exEnv trialUser 11 bodyA counterFullWorld)
       = AttendeeRegistered (newAttendeeRow regA 11 ?ev)"
    unfolding run by simp
  have c4: "map ev_currentAttendees
        (w_events (snd (registerAttendee exEnv trialUser 11 bodyA counterFullWorld))) = [2]"
    unfolding run by (simp add: counterFullWorld_def exEvent_def incrementAttendees_def)
  show ?thesis by (intro conjI c1 c2 c3 c4)
qed

section \<open>Two registrations at once\<close>

text \<open>Running the four steps of one request without interruption is the handler.\<close>

lemma first_request_alone:
  assumes "readRegisterBody b = Some g"
  shows "runSchedule en usr eid g g2 [True, True, True, True] (AtFindEvent, pc2, w)
         = (Finished (fst (registerAttendee en usr eid b w)), pc2,
            snd (registerAttendee en usr eid b w))"
  by (simp add: registerAttendee_def regStep_def assms
      split: option.splits prod.splits if_splits)

lemma second_request_alone:
  assumes "readRegisterBody b = Some g"
  shows "runSchedule en usr eid g1 g [False, False, False, False] (pc1, AtFindEvent, w)
         = (pc1, Finished (fst (registerAttendee en usr eid b w)),
            snd (registerAttendee en usr eid b w))"
  by (simp add: registerAttendee_def regStep_def assms
      split: option.splits prod.splits if_splits)

lemma runSchedule_append:
  "runSchedule en usr eid g1 g2 (xs @ ys) cfg
   = runSchedule en usr eid g1 g2 ys (runSchedule en usr eid g1 g2 xs cfg)"
proof (induction xs arbitrary: cfg)
  case Nil
  show ?case by simp
next
  case (Cons x xs)
  obtain pc1 pc2 w where cfg: "cfg = (pc1, pc2, w)" by (cases cfg) auto
  show ?case
  proof (cases x)
    case True
    then show ?thesis using Cons.IH unfolding cfg by (simp split: prod.splits)
  next
    case False
    then show ?thesis using Cons.IH unfolding cfg by (simp split: prod.splits)
  qed
qed

text \<open>
  Claim C4, as amended. The capacity check and the increment are separate database
  calls (the count is read with the event, the row is inserted later, the counter is
  incremented last, without a condition); nothing makes them one atomic unit. When two
  registrations for an event with \<open>maxAttendees - 1\<close> attendee rows run one after the
  other, and the e-mail of the first is not yet registered for the event, exactly one
  succeeds: the first adds its row, the second is answered \<open>EventFull\<close> (whatever its
  e-mail), the event ends with \<open>maxAttendees\<close> rows and its counter has grown by one.
  Nothing is promised for two registrations whose database calls interleave.
\<close>

theorem sequential_registrations_at_capacity:
  assumes "readRegisterBody b1 = Some g1"
    and "readRegisterBody b2 = Some g2"
    and "find (\<lambda>e. ev_id e = eid) (w_events w) = Some ev"
    and "ev_userId ev = usr_id usr"
    and "\<forall>p. \<not> store_fails en p"
    and "int (length (attendeesOf eid w)) = ev_maxAttendees ev - 1"
    and "find (\<lambda>a. at_email a = g_email g1 \<and> at_eventId a = eid) (w_attendees w) = None"
    and "r1 = fst (registerAttendee en usr eid b1 w)"
    and "w1 = snd (registerAttendee en usr eid b1 w)"
    and "r2 = fst (registerAttendee en usr eid b2 w1)"
    and "w2 = snd (registerAttendee en usr eid b2 w1)"
  shows "r1 = AttendeeRegistered (newAttendeeRow g1 eid ev)
       \<and> r2 = EventFull (ev_maxAttendees ev) (ev_maxAttendees ev)
       \<and> w_attendees w2 = w_attendees w @ [newAttendeeRow g1 eid ev]
       \<and> int (length (attendeesOf eid w2)) = ev_maxAttendees ev
       \<and> w_events w2 =
           map (\<lambda>x. if ev_id x = eid
                     then x\<lparr>ev_currentAttendees := ev_currentAttendees x + 1\<rparr> else x)
               (w_events w)
       \<and> runSchedule en usr eid g1 g2
            [True, True, True, True, False, False, False, False] (AtFindEvent, AtFindEvent, w)
          = (Finished r1, Finished r2, w2)"
proof -
  let ?row = "newAttendeeRow g1 eid ev"
  let ?evs = "map (\<lambda>x. if ev_id x = eid then incrementAttendees x else x) (w_events w)"
  let ?w1 = "w\<lparr>w_events := ?evs, w_attendees := w_attendees w @ [?row],
               w_trace := w_trace w @ [Store EventFindUnique, Store AttendeeFindUnique,
                                       Store AttendeeCreate, Store EventUpdate]\<rparr>"
  have sf: "\<And>p. \<not> store_fails en p" using assms(5) by simp
  have lt: "int (length (attendeesOf eid w)) < ev_maxAttendees ev"
    using assms(6) by simp
  have run1: "registerAttendee en usr eid b1 w = (AttendeeRegistered ?row, ?w1)"
    by (rule register_ok [OF assms(1,3,4,5) lt assms(7)])
  have r1: "r1 = AttendeeRegistered ?row" and w1: "w1 = ?w1"
    unfolding assms(8) assms(9) run1 by simp_all
  have f1: "find (\<lambda>e. ev_id e = eid) (w_events ?w1) = Some (incrementAttendees ev)"
    using find_map_same_id [OF assms(3), of incrementAttendees]
    by (simp add: incrementAttendees_def)
  have o1: "ev_userId (incrementAttendees ev) = usr_id usr"
    using assms(4) by (simp add: incrementAttendees_def)
  have a1: "attendeesOf eid ?w1 = attendeesOf eid w @ [?row]"
    by (simp add: attendeesOf_def newAttendeeRow_def)
  have full: "ev_maxAttendees (incrementAttendees ev) \<le> int (length (attendeesOf eid ?w1))"
    unfolding a1 using assms(6) by (simp add: incrementAttendees_def)
  have run2: "registerAttendee en usr eid b2 ?w1
         = (EventFull (ev_maxAttendees (incrementAttendees ev))
              (int (length (attendeesOf eid ?w1))),
            logCall (Store EventFindUnique) ?w1)"
    by (rule register_full [OF assms(2) f1 o1 sf full])
  have cnt: "int (length (attendeesOf eid ?w1)) = ev_maxAttendees ev"
    unfolding a1 using assms(6) by simp
  have r2: "r2 = EventFull (ev_maxAttendees ev) (ev_maxAttendees ev)"
    unfolding assms(10) w1 run2 cnt by (simp add: incrementAttendees_def)
  have w2: "w2 = logCall (Store EventFindUnique) ?w1"
    unfolding assms(11) w1 run2 by simp
  have c3: "w_attendees w2 = w_attendees w @ [?row]"
    unfolding w2 by (simp add: logCall_def)
  have "attendeesOf eid w2 = attendeesOf eid ?w1"
    unfolding w2 by (simp add: attendeesOf_def logCall_def)
  then have c4: "int (length (attendeesOf eid w2)) = ev_maxAttendees ev"
    using cnt by simp
  have c5: "w_events w2 =
           map (\<lambda>x. if ev_id x = eid
                     then x\<lparr>ev_currentAttendees := ev_currentAttendees x + 1\<rparr> else x)
               (w_events w)"
    unfolding w2 by (simp add: logCall_def incrementAttendees_def)
  have "runSchedule en usr eid g1 g2
            ([True, True, True, True] @ [False, False, False, False]) (AtFindEvent, AtFindEvent, w)
        = runSchedule en usr eid g1 g2 [False, False, False, False] (Finished r1, AtFindEvent, w1)"
    unfolding runSchedule_append first_request_alone [OF assms(1)] assms(8) assms(9)
    by (rule refl)
  also have "\<dots> = (Finished r1, Finished r2, w2)"
    unfolding second_request_alone [OF assms(2)] assms(10) assms(11) by (rule refl)
  finally have c6: "runSchedule en usr eid g1 g2
            [True, True, True, True, False, False, False, False] (AtFindEvent, AtFindEvent, w)
          = (Finished r1, Finished r2, w2)"
    by simp
  show ?thesis by (intro conjI r1 r2 c3 c4 c5 c6)
qed

theorem sequential_registrations_at_capacity_witness:
  "readRegisterBody bodyA = Some regA \<and> readRegisterBody bodyB = Some regB
   \<and> find (\<lambda>e. ev_id e = 11) (w_events oneEventWorld) = Some (exEvent 11)
   \<and> ev_userId (exEvent 11) = usr_id trialUser
   \<and> (\<forall>p. \<not> store_fails exEnv p)
   \<and> int (length (attendeesOf 11 oneEventWorld)) = ev_maxAttendees (exEvent 11) - 1
   \<and> find (\<lambda>a. at_email a = g_email regA \<and> at_eventId a = 11) (w_attendees oneEventWorld) = None
   \<and> fst (registerAttendee exEnv trialUser 11 bodyA oneEventWorld)
       = AttendeeRegistered (newAttendeeRow regA 11 (exEvent 11))
   \<and> fst (registerAttendee exEnv trialUser 11 bodyB
            (snd (registerAttendee exEnv trialUser 11 bodyA oneEventWorld)))
       = EventFull 1 1"
proof -
  have h1: "readRegisterBody bodyA = Some regA"
    by (simp add: readRegisterBody_def bodyA_def regA_def trim_def isSpace_def)
  have h2: "readRegisterBody bodyB = Some regB"
    by (simp add: readRegisterBody_def bodyB_def regB_def trim_def isSpace_def)
  have h5: "\<forall>p. \<not> store_fails exEnv p"
    by (simp add: exEnv_def)
  have h6: "int (length (attendeesOf 11 oneEventWorld)) = ev_maxAttendees (exEvent 11) - 1"
    by (simp add: attendeesOf_def oneEventWorld_def exEvent_def)
  have h7: "find (\<lambda>a. at_email a = g_email regA \<and> at_eventId a = 11)
              (w_attendees oneEventWorld) = None"
    by (simp add: oneEventWorld_def)
  note th = sequential_registrations_at_capacity [OF h1 h2 oneEventWorld_find exEvent_owner
      h5 h6 h7 refl refl refl refl]
  have c1: "fst (registerAttendee exEnv trialUser 11 bodyA oneEventWorld)
       = AttendeeRegistered (newAttendeeRow regA 11 (exEvent 11))"
    by (rule th [THEN conjunct1])
  have m: "ev_maxAttendees (exEvent 11) = 1"
    by (simp add: exEvent_def)
  have c2: "fst (registerAttendee exEnv trialUser 11 bodyB
            (snd (registerAttendee exEnv trialUser 11 bodyA oneEventWorld)))
       = EventFull 1 1"
    using th [THEN conjunct2, THEN conjunct1] unfolding m by simp
  show ?thesis
    by (intro conjI h1 h2 oneEventWorld_find exEvent_owner h5 h6 h7 c1 c2)
qed

text \<open>
  The claim as stated fails: when the calls of two registrations interleave, both read
  the count before either inserts, both pass the capacity check, and both succeed. The
  event, with room for one attendee, ends with two attendee rows and a counter of 2.
\<close>

theorem interleaved_registrations_counterexample:
  "int (length (attendeesOf 11 oneEventWorld)) = ev_maxAttendees (exEvent 11) - 1
   \<and> runSchedule exEnv trialUser 11 regA regB
        [True, False, True, False, True, False, True, False]
        (AtFindEvent, AtFindEvent, oneEventWorld)
     = (Finished (AttendeeRegistered (newAttendeeRow regA 11 (exEvent 11))),
        Finished (AttendeeRegistered (newAttendeeRow regB 11 (exEvent 11))),
        \<lparr>w_events = [(exEvent 11)\<lparr>ev_currentAttendees := 2\<rparr>],
         w_attendees = [newAttendeeRow regA 11 (exEvent 11), newAttendeeRow regB 11 (exEvent 11)],
         w_nextId = 12,
         w_trace = [Store EventFindUnique, Store EventFindUnique,
                    Store AttendeeFindUnique, Store AttendeeFindUnique,
                    Store AttendeeCreate, Store AttendeeCreate,
                    Store EventUpdate, Store EventUpdate]\<rparr>)
   \<and> ev_maxAttendees ((exEvent 11)\<lparr>ev_currentAttendees := 2\<rparr>) = 1"
  by (simp add: regStep_def prisma_event_findWithCount_def prisma_event_findUnique_def
      prisma_attendee_findUnique_def prisma_attendee_create_def prisma_event_update_def
      logCall_def Let_def attendeesOf_def incrementAttendees_def newAttendeeRow_def
      oneEventWorld_def exEvent_def exEnv_def trialUser_def regA_def regB_def)

end
